theory Spec2Isabelle
  imports Main
begin

section \<open>Python values, strings and errors\<close>

text \<open>
  The repository is dynamically typed Python: the values that flow through the search,
  fetch and extraction code are \<open>None\<close>, booleans, numbers, strings, lists and
  dictionaries (what \<open>json.loads\<close> and \<open>resp.json()\<close> build). One datatype holds them.
  A dictionary is an association list in insertion order, looked up at the first entry of a
  key (the keys of a Python dictionary are distinct). A float is held as its \<open>repr\<close> text
  (\<open>''19.99''\<close>, \<open>''nan''\<close>), which determines it.

  A \<open>string\<close> stands for a Python \<open>str\<close> whose code points are below 256, one \<open>char\<close>
  per code point.
\<close>

datatype json =
    JNull
  | JBool bool
  | JInt int
  | JFloat string
  | JStr string
  | JArr "json list"
  | JObj "(string \<times> json) list"

text \<open>Exceptions. \<open>ExternalError\<close> is any exception raised inside a library or a
  collaborator (requests, selenium, BeautifulSoup, urllib), tagged with its text.\<close>

datatype error =
    ValueError string
  | AttributeError
  | IndexError
  | KeyError
  | TypeError
  | ExternalError string

text \<open>Python truthiness (\<open>if x\<close>, \<open>not x\<close>, \<open>x or y\<close>).\<close>

fun truthy :: "json \<Rightarrow> bool" where
  "truthy JNull = False"
| "truthy (JBool b) = b"
| "truthy (JInt i) = (i \<noteq> 0)"
| "truthy (JFloat r) = (r \<noteq> ''0.0'' \<and> r \<noteq> ''-0.0'')"
| "truthy (JStr s) = (s \<noteq> [])"
| "truthy (JArr xs) = (xs \<noteq> [])"
| "truthy (JObj kvs) = (kvs \<noteq> [])"

definition py_or :: "json \<Rightarrow> json \<Rightarrow> json" where
  "py_or a b = (if truthy a then a else b)"

text \<open>\<open>str(x)\<close>: a string is itself, a float prints its \<open>repr\<close>; the text of every other
  value is the interpreter's \<open>repr\<close>, a parameter of the model.\<close>

definition py_str :: "(json \<Rightarrow> string) \<Rightarrow> json \<Rightarrow> string" where
  "py_str rp v = (case v of JStr s \<Rightarrow> s | JFloat r \<Rightarrow> r | _ \<Rightarrow> rp v)"

text \<open>\<open>str.isspace\<close> on code points below 256: TAB..CR, FS..US and space, NEL, NBSP.\<close>

definition is_space :: "char \<Rightarrow> bool" where
  "is_space c = (let n = (of_char c :: nat) in
     (9 \<le> n \<and> n \<le> 13) \<or> (28 \<le> n \<and> n \<le> 32) \<or> n = 133 \<or> n = 160)"

definition strip :: "string \<Rightarrow> string" where
  "strip s = rev (dropWhile is_space (rev (dropWhile is_space s)))"

definition startswith :: "string \<Rightarrow> string \<Rightarrow> bool" where
  "startswith s p = (take (length p) s = p)"

text \<open>\<open>d.get(k)\<close>: the value, \<open>None\<close> for a missing key, \<open>AttributeError\<close> when \<open>d\<close> is
  not a dictionary.\<close>

fun obj_get :: "json \<Rightarrow> string \<Rightarrow> error + json" where
  "obj_get (JObj kvs) k = Inr (case map_of kvs k of Some v \<Rightarrow> v | None \<Rightarrow> JNull)"
| "obj_get _ k = Inl AttributeError"

text \<open>\<open>x[0]\<close> on a value: first element of a list, first character of a string,
  \<open>KeyError\<close> on a dictionary (its keys are strings), \<open>TypeError\<close> otherwise.\<close>

fun index0 :: "json \<Rightarrow> error + json" where
  "index0 (JArr (x # xs)) = Inr x"
| "index0 (JArr []) = Inl IndexError"
| "index0 (JStr (c # cs)) = Inr (JStr [c])"
| "index0 (JStr []) = Inl IndexError"
| "index0 (JObj kvs) = Inl KeyError"
| "index0 _ = Inl TypeError"

text \<open>Sequencing of steps that may raise: the first exception ends the sequence.\<close>

fun bind_err :: "error + 'a \<Rightarrow> ('a \<Rightarrow> error + 'b) \<Rightarrow> error + 'b" where
  "bind_err (Inl e) f = Inl e"
| "bind_err (Inr x) f = f x"

text \<open>\<open>xs[:n]\<close> for an integer \<open>n\<close>: a negative bound counts from the end.\<close>

definition slice_to :: "'a list \<Rightarrow> int \<Rightarrow> 'a list" where
  "slice_to xs n = (if 0 \<le> n then take (nat n) xs else take (nat (int (length xs) + n)) xs)"

section \<open>web\_scraper.py\<close>

text \<open>
  The outside world. Every request appends an event to a log, and what a collaborator
  answers is a function of the log so far and the request, so the same URL may be
  answered differently at different moments.
\<close>

datatype event =
    SearchApiPost string int
  | DdgPost string
  | ScrapeApiPost string
  | BrowserGet string

record response =
  status_code :: int
  json_body :: "json option"
  text_body :: string

record tag =
  tag_name :: string
  attrs :: "(string \<times> string) list"
  tag_string :: "string option"

text \<open>
  A parsed document is the list of its tags in document order, the order in which
  \<open>find\<close> and \<open>find_all\<close> visit them; \<open>tag_string\<close> is the tag's \<open>.string\<close>.
  The libraries are parameters: \<open>bs_parse\<close> is \<open>BeautifulSoup(markup, "html.parser")\<close>,
  \<open>json_loads\<close> is \<open>json.loads\<close> (\<open>None\<close> when it raises), \<open>urljoin\<close> is
  \<open>urllib.parse.urljoin\<close>, \<open>validators_url\<close> is the optional \<open>validators\<close> package
  (\<open>None\<close> when it is not installed), \<open>py_repr\<close> is \<open>repr\<close>.
\<close>

record env =
  firecrawl_api_key :: "string option"
  py_repr :: "json \<Rightarrow> string"
  validators_url :: "(string \<Rightarrow> bool) option"
  scrape_api_post :: "event list \<Rightarrow> string \<Rightarrow> error + response"
  browser_page_source :: "event list \<Rightarrow> string \<Rightarrow> error + string"
  search_api_post :: "event list \<Rightarrow> string \<Rightarrow> int \<Rightarrow> error + response"
  ddg_post :: "event list \<Rightarrow> string \<Rightarrow> error + response"
  bs_parse :: "json \<Rightarrow> error + tag list"
  json_loads :: "string \<Rightarrow> json option"
  urljoin :: "json \<Rightarrow> string \<Rightarrow> error + string"

definition key_present :: "env \<Rightarrow> bool" where
  "key_present E = (case firecrawl_api_key E of None \<Rightarrow> False | Some k \<Rightarrow> k \<noteq> [])"

text \<open>\<open>resp.raise_for_status()\<close> raises on a 4xx or 5xx status.\<close>

definition raise_for_status :: "response \<Rightarrow> bool" where
  "raise_for_status r = (400 \<le> status_code r \<and> status_code r < 600)"

definition normalize_url :: "(json \<Rightarrow> string) \<Rightarrow> json \<Rightarrow> string option" where
  "normalize_url rp url =
     (if \<not> truthy url then None
      else let u = strip (py_str rp url) in
        if u = [] then None
        else if \<not> startswith u ''http://'' \<and> \<not> startswith u ''https://''
          then Some (''https://'' @ u)
          else Some u)"

text \<open>The \<open>html\<close> expression of \<open>scrape_with_firecrawl\<close>; an exception anywhere in it is
  caught by the function's \<open>except\<close>.\<close>

definition firecrawl_html :: "json \<Rightarrow> error + json" where
  "firecrawl_html data =
     bind_err (obj_get data ''html'') (\<lambda>h.
       if truthy h then Inr h else
     bind_err (obj_get data ''content'') (\<lambda>c.
       if truthy c then Inr c else
     bind_err (obj_get data ''results'') (\<lambda>rs.
       if truthy rs then bind_err (index0 rs) (\<lambda>r0. obj_get r0 ''html'')
       else Inr JNull)))"

definition scrape_with_firecrawl :: "env \<Rightarrow> string \<Rightarrow> event list \<Rightarrow> json \<times> event list" where
  "scrape_with_firecrawl E url log =
     (if \<not> key_present E then (JNull, log)
      else
        (case scrape_api_post E log url of
           Inl e \<Rightarrow> JNull
         | Inr resp \<Rightarrow>
             if raise_for_status resp then JNull
             else (case json_body resp of
                     None \<Rightarrow> JNull
                   | Some data \<Rightarrow>
                       (case firecrawl_html data of Inl e \<Rightarrow> JNull | Inr h \<Rightarrow> h)),
         log @ [ScrapeApiPost url]))"

text \<open>The browser run: constructing the driver, \<open>get\<close>, the wait and \<open>page_source\<close> are
  one answer of the browser; \<open>driver.quit()\<close> in \<open>finally\<close> does not change it.\<close>

definition scrape_with_selenium :: "env \<Rightarrow> string \<Rightarrow> event list \<Rightarrow> (error + json) \<times> event list" where
  "scrape_with_selenium E url log =
     (case browser_page_source E log url of Inl e \<Rightarrow> Inl e | Inr src \<Rightarrow> Inr (JStr src),
      log @ [BrowserGet url])"

definition scrape_website :: "env \<Rightarrow> json \<Rightarrow> event list \<Rightarrow> (error + json) \<times> event list" where
  "scrape_website E url log =
     (if \<not> truthy url then
        (Inl (ValueError ''scrape_website expected a non-empty URL but got None/empty.''), log)
      else case normalize_url (py_repr E) url of
        None \<Rightarrow> (Inl (ValueError (''Cannot normalize URL: '' @ py_repr E url)), log)
      | Some url_norm \<Rightarrow>
          if url_norm = [] then
            (Inl (ValueError (''Cannot normalize URL: '' @ py_repr E url)), log)
          else if (case validators_url E of None \<Rightarrow> False | Some v \<Rightarrow> \<not> v url_norm) then
            (Inl (ValueError (''Normalized URL does not appear valid: '' @ url_norm)), log)
          else
            (case scrape_with_firecrawl E url_norm log of (html, log1) \<Rightarrow>
               if truthy html then (Inr html, log1)
               else scrape_with_selenium E url_norm log1))"

section \<open>web\_search.py\<close>

text \<open>The \<open>url\<close> of one element of a result array: \<open>it.get("url") or it.get("link") or
  it.get("target")\<close> when the element is a dictionary and that value is truthy.\<close>

definition item_url :: "json \<Rightarrow> json option" where
  "item_url it =
     (case it of
        JObj kvs \<Rightarrow>
          (case bind_err (obj_get it ''url'') (\<lambda>a.
                  bind_err (obj_get it ''link'') (\<lambda>b.
                  bind_err (obj_get it ''target'') (\<lambda>c. Inr (py_or a (py_or b c))))) of
             Inl e \<Rightarrow> None
           | Inr u \<Rightarrow> if truthy u then Some u else None)
      | _ \<Rightarrow> None)"

text \<open>The inner loop \<open>for it in data.get(key, [])\<close>, appending to \<open>results\<close>.\<close>

fun collect_urls :: "json list \<Rightarrow> json list \<Rightarrow> json list" where
  "collect_urls [] results = results"
| "collect_urls (it # its) results =
     (case item_url it of
        None \<Rightarrow> collect_urls its results
      | Some u \<Rightarrow> collect_urls its (results @ [u]))"

text \<open>The loop over the keys \<open>results\<close>, \<open>data\<close>, \<open>items\<close>: \<open>Some results\<close> when it
  returns from inside, \<open>None\<close> when it falls through; \<open>data.get\<close> raises on a response that
  is not a dictionary.\<close>

fun probe_keys :: "json \<Rightarrow> string list \<Rightarrow> json list \<Rightarrow> error + json list option" where
  "probe_keys data [] results = Inr None"
| "probe_keys data (key # keys) results =
     bind_err (obj_get data key) (\<lambda>v.
       case v of
         JArr its \<Rightarrow>
           (let results' = collect_urls its results in
            if results' \<noteq> [] then Inr (Some results') else probe_keys data keys results')
       | _ \<Rightarrow> probe_keys data keys results)"

fun extract_urls_from_obj :: "json \<Rightarrow> string list" where
  "extract_urls_from_obj (JObj kvs) = concat (map (\<lambda>kv. extract_urls_from_obj (snd kv)) kvs)"
| "extract_urls_from_obj (JArr xs) = concat (map extract_urls_from_obj xs)"
| "extract_urls_from_obj (JStr s) = (if startswith s ''http'' then [s] else [])"
| "extract_urls_from_obj _ = []"

text \<open>The order-keeping removal of duplicates (\<open>uniq\<close>, \<open>seen\<close>) that closes both
  search functions.\<close>

fun dedupe :: "'a list \<Rightarrow> 'a list \<Rightarrow> 'a set \<Rightarrow> 'a list" where
  "dedupe [] uniq seen = uniq"
| "dedupe (u # us) uniq seen =
     (if u \<notin> seen then dedupe us (uniq @ [u]) (insert u seen) else dedupe us uniq seen)"

definition site_query :: "string \<Rightarrow> string \<Rightarrow> string" where
  "site_query site query = (if site \<noteq> [] then ''site:'' @ site @ '' '' @ query else query)"

definition firecrawl_search ::
  "env \<Rightarrow> string \<Rightarrow> string \<Rightarrow> int \<Rightarrow> event list \<Rightarrow> (error + json list) \<times> event list" where
  "firecrawl_search E query site num_results log =
     (if \<not> key_present E then (Inr [], log)
      else
        (let q = site_query site query in
         (case search_api_post E log q num_results of
            Inl e \<Rightarrow> Inr []
          | Inr resp \<Rightarrow>
              if status_code resp \<noteq> 200 then Inr []
              else (case json_body resp of
                      None \<Rightarrow> Inr []
                    | Some data \<Rightarrow>
                        bind_err (probe_keys data [''results'', ''data'', ''items''] []) (\<lambda>found.
                          case found of
                            Some results \<Rightarrow> Inr (slice_to results num_results)
                          | None \<Rightarrow>
                              Inr (slice_to (map JStr (dedupe (extract_urls_from_obj data) [] {}))
                                     num_results))),
          log @ [SearchApiPost q num_results])))"

text \<open>\<open>tag.get(k)\<close> and \<open>tag[k]\<close> on an attribute the tag has.\<close>

definition tag_get :: "tag \<Rightarrow> string \<Rightarrow> string option" where
  "tag_get t k = map_of (attrs t) k"

text \<open>\<open>soup.find(name, ...)\<close> and \<open>soup.find_all(name, ...)\<close>: the first tag, and all
  tags, of that name that pass the attribute test, in document order.\<close>

definition find_tag :: "tag list \<Rightarrow> string \<Rightarrow> (tag \<Rightarrow> bool) \<Rightarrow> tag option" where
  "find_tag soup nm P = List.find (\<lambda>t. tag_name t = nm \<and> P t) soup"

definition find_all :: "tag list \<Rightarrow> string \<Rightarrow> (tag \<Rightarrow> bool) \<Rightarrow> tag list" where
  "find_all soup nm P = filter (\<lambda>t. tag_name t = nm \<and> P t) soup"

text \<open>The loop of \<open>ddg_search\<close> over the anchors that have an \<open>href\<close>: \<open>continue\<close> on an
  internal link, \<open>break\<close> once \<open>num_results\<close> links are held.\<close>

fun ddg_links :: "tag list \<Rightarrow> int \<Rightarrow> string list \<Rightarrow> string list" where
  "ddg_links [] num_results links = links"
| "ddg_links (a # as) num_results links =
     (case tag_get a ''href'' of
        None \<Rightarrow> ddg_links as num_results links
      | Some href \<Rightarrow>
          if startswith href ''/'' then ddg_links as num_results links
          else (let links' = (if startswith href ''http'' then links @ [href] else links) in
                if int (length links') \<ge> num_results then links'
                else ddg_links as num_results links'))"

definition ddg_search ::
  "env \<Rightarrow> string \<Rightarrow> int \<Rightarrow> event list \<Rightarrow> (error + json list) \<times> event list" where
  "ddg_search E query num_results log =
     ((case ddg_post E log query of
         Inl e \<Rightarrow> Inr []
       | Inr resp \<Rightarrow>
           if raise_for_status resp then Inr []
           else bind_err (bs_parse E (JStr (text_body resp))) (\<lambda>soup.
                  Inr (slice_to
                         (map JStr (dedupe
                            (ddg_links (find_all soup ''a'' (\<lambda>t. tag_get t ''href'' \<noteq> None))
                               num_results []) [] {}))
                         num_results))),
      log @ [DdgPost query])"

definition search_all ::
  "env \<Rightarrow> string \<Rightarrow> string \<Rightarrow> int \<Rightarrow> event list \<Rightarrow> (error + json list) \<times> event list" where
  "search_all E query site num_results log =
     (case firecrawl_search E query site num_results log of
        (Inl e, log1) \<Rightarrow> (Inl e, log1)
      | (Inr fc, log1) \<Rightarrow>
          if fc \<noteq> [] then (Inr fc, log1)
          else ddg_search E ((if site \<noteq> [] then ''site:'' @ site @ '' '' else []) @ query)
                 num_results log1)"

section \<open>agent.py: the extractor and the orchestrator\<close>

record product =
  name :: json
  price :: json
  link :: json
  image_val :: json
  source_url :: json
  raw_title :: json

text \<open>\<open>str.lower\<close> on code points below 256.\<close>

definition lower_char :: "char \<Rightarrow> char" where
  "lower_char c = (let n = (of_char c :: nat) in
     if (65 \<le> n \<and> n \<le> 90) \<or> (192 \<le> n \<and> n \<le> 222 \<and> n \<noteq> 215) then char_of (n + 32) else c)"

definition lower :: "string \<Rightarrow> string" where
  "lower s = map lower_char s"

text \<open>The whitespace-separated tokens of an attribute value: BeautifulSoup holds \<open>rel\<close> as
  the list of them, and \<open>rel="canonical"\<close> matches a tag when one of them is \<open>canonical\<close>.\<close>

fun tokens :: "string \<Rightarrow> string \<Rightarrow> string list" where
  "tokens [] cur = (if cur = [] then [] else [cur])"
| "tokens (c # cs) cur =
     (if is_space c then (if cur = [] then tokens cs [] else cur # tokens cs [])
      else tokens cs (cur @ [c]))"

definition rel_has :: "string \<Rightarrow> tag \<Rightarrow> bool" where
  "rel_has v t = (case tag_get t ''rel'' of None \<Rightarrow> False | Some r \<Rightarrow> v \<in> set (tokens r []))"

definition attr_is :: "string \<Rightarrow> string \<Rightarrow> tag \<Rightarrow> bool" where
  "attr_is k v t = (tag_get t k = Some v)"

text \<open>\<open>soup.find("meta", property=p) or soup.find("meta", attrs={"name": p})\<close>; a tag is
  always truthy.\<close>

definition find_meta :: "tag list \<Rightarrow> string \<Rightarrow> tag option" where
  "find_meta soup p =
     (case find_tag soup ''meta'' (attr_is ''property'' p) of
        Some t \<Rightarrow> Some t
      | None \<Rightarrow> find_tag soup ''meta'' (attr_is ''name'' p))"

definition meta_content :: "tag list \<Rightarrow> string \<Rightarrow> string option" where
  "meta_content soup p =
     (case find_meta soup p of
        None \<Rightarrow> None
      | Some t \<Rightarrow> (case tag_get t ''content'' of
                     None \<Rightarrow> None
                   | Some c \<Rightarrow> if c \<noteq> [] then Some (strip c) else None))"

fun meta_prop :: "tag list \<Rightarrow> string list \<Rightarrow> json" where
  "meta_prop soup [] = JNull"
| "meta_prop soup (p # ps) =
     (case meta_content soup p of Some c \<Rightarrow> JStr c | None \<Rightarrow> meta_prop soup ps)"

definition title_text :: "tag list \<Rightarrow> json" where
  "title_text soup =
     (case find_tag soup ''title'' (\<lambda>t. True) of
        None \<Rightarrow> JNull
      | Some t \<Rightarrow> (case tag_string t of
                     None \<Rightarrow> JNull
                   | Some s \<Rightarrow> if s \<noteq> [] then JStr (strip s) else JNull))"

text \<open>The canonical link: \<open>urljoin(url, can_tag["href"])\<close> when the first
  \<open>link rel="canonical"\<close> tag has a truthy \<open>href\<close>, the URL itself otherwise.\<close>

definition canonical_link :: "env \<Rightarrow> tag list \<Rightarrow> json \<Rightarrow> error + json" where
  "canonical_link E soup url =
     (case find_tag soup ''link'' (rel_has ''canonical'') of
        None \<Rightarrow> Inr url
      | Some can_tag \<Rightarrow>
          (case tag_get can_tag ''href'' of
             None \<Rightarrow> Inr url
           | Some href \<Rightarrow>
               if href \<noteq> [] then bind_err (urljoin E url href) (\<lambda>u. Inr (JStr u))
               else Inr url))"

text \<open>
  The JSON-LD scan. Its variables \<open>name\<close>, \<open>price\<close>, \<open>image\<close> are a triple; one item
  ends with \<open>Next\<close> (go on with the next item), \<open>Break\<close> (the \<open>break\<close> of the inner
  loop) or \<open>Raised\<close> (an exception, which leaves the assignments made before it in
  place and is caught by the \<open>except Exception: pass\<close> around the whole scan).
\<close>

datatype flow = Next | Break | Raised error

type_synonym scan_state = "json \<times> json \<times> json"

definition item_type :: "json \<Rightarrow> error + json" where
  "item_type it =
     bind_err (obj_get it ''@type'') (\<lambda>a.
     bind_err (obj_get it ''type'') (\<lambda>b.
       (let it_type = py_or a b in
        case it_type of JArr ts \<Rightarrow> index0 it_type | _ \<Rightarrow> Inr it_type)))"

text \<open>\<open>offers.get("price") or (offers.get("priceSpecification") or {}).get("price")\<close>\<close>

definition offers_price :: "json \<Rightarrow> error + json" where
  "offers_price offers =
     bind_err (obj_get offers ''price'') (\<lambda>p.
       if truthy p then Inr p
       else bind_err (obj_get offers ''priceSpecification'') (\<lambda>ps.
              obj_get (py_or ps (JObj [])) ''price''))"

definition offers_currency :: "json \<Rightarrow> error + json" where
  "offers_currency offers =
     bind_err (obj_get offers ''priceCurrency'') (\<lambda>a.
     bind_err (obj_get offers ''currency'') (\<lambda>b. Inr (py_or a b)))"

text \<open>The \<open>if offers:\<close> block: the new value of \<open>price\<close>.\<close>

definition offers_step :: "(json \<Rightarrow> string) \<Rightarrow> json \<Rightarrow> json \<Rightarrow> error + json" where
  "offers_step rp offers0 price0 =
     bind_err (case offers0 of JArr os \<Rightarrow> index0 offers0 | _ \<Rightarrow> Inr offers0) (\<lambda>offers.
     bind_err (offers_price offers) (\<lambda>price_val.
       (let price1 = (if truthy price_val then JStr (py_str rp price_val) else price0) in
        bind_err (offers_currency offers) (\<lambda>currency.
          Inr (if truthy currency \<and> truthy price1
               then JStr (py_str rp price1 @ '' '' @ py_str rp currency)
               else price1)))))"

definition image_step :: "json \<Rightarrow> json \<Rightarrow> error + json" where
  "image_step img image0 =
     (if truthy img then (case img of JArr xs \<Rightarrow> index0 img | _ \<Rightarrow> Inr img) else Inr image0)"

definition product_item :: "(json \<Rightarrow> string) \<Rightarrow> json \<Rightarrow> scan_state \<Rightarrow> scan_state \<times> flow" where
  "product_item rp it st =
     (case st of (name0, price0, image0) \<Rightarrow>
        (case (if \<not> truthy name0 then obj_get it ''name'' else Inr name0) of
           Inl e \<Rightarrow> ((name0, price0, image0), Raised e)
         | Inr name1 \<Rightarrow>
             (case bind_err (obj_get it ''offers'') (\<lambda>offers.
                     if truthy offers then offers_step rp offers price0 else Inr price0) of
                Inl e \<Rightarrow> ((name1, price0, image0), Raised e)
              | Inr price1 \<Rightarrow>
                  (case bind_err (obj_get it ''image'') (\<lambda>img. image_step img image0) of
                     Inl e \<Rightarrow> ((name1, price1, image0), Raised e)
                   | Inr image1 \<Rightarrow>
                       ((name1, price1, image1), if truthy name1 then Break else Next)))))"

definition scan_item :: "(json \<Rightarrow> string) \<Rightarrow> json \<Rightarrow> scan_state \<Rightarrow> scan_state \<times> flow" where
  "scan_item rp it st =
     (case item_type it of
        Inl e \<Rightarrow> (st, Raised e)
      | Inr it_type \<Rightarrow>
          if truthy it_type \<and> lower (py_str rp it_type) = ''product''
          then product_item rp it st
          else (st, Next))"

text \<open>The inner loop \<open>for it in items\<close>.\<close>

fun scan_items :: "(json \<Rightarrow> string) \<Rightarrow> json list \<Rightarrow> scan_state \<Rightarrow> scan_state \<times> error option" where
  "scan_items rp [] st = (st, None)"
| "scan_items rp (it # its) st =
     (case scan_item rp it st of
        (st', Next) \<Rightarrow> scan_items rp its st'
      | (st', Break) \<Rightarrow> (st', None)
      | (st', Raised e) \<Rightarrow> (st', Some e))"

definition script_items :: "env \<Rightarrow> tag \<Rightarrow> json list option" where
  "script_items E script =
     (case tag_string script of
        None \<Rightarrow> None
      | Some text \<Rightarrow>
          if text = [] then None
          else (case json_loads E (strip text) of
                  None \<Rightarrow> None
                | Some data \<Rightarrow> Some (case data of JArr xs \<Rightarrow> xs | _ \<Rightarrow> [data])))"

text \<open>The outer loop \<open>for script in soup.find_all("script", type="application/ld+json")\<close>;
  \<open>script_items\<close> is \<open>None\<close> on the two \<open>continue\<close>s.\<close>

fun scan_scripts :: "env \<Rightarrow> tag list \<Rightarrow> scan_state \<Rightarrow> scan_state \<times> error option" where
  "scan_scripts E [] st = (st, None)"
| "scan_scripts E (script # scripts) st =
     (case script_items E script of
        None \<Rightarrow> scan_scripts E scripts st
      | Some items \<Rightarrow>
          (case scan_items (py_repr E) items st of
             (st', None) \<Rightarrow> scan_scripts E scripts st'
           | (st', Some e) \<Rightarrow> (st', Some e)))"

definition ld_scripts :: "tag list \<Rightarrow> tag list" where
  "ld_scripts soup = find_all soup ''script'' (attr_is ''type'' ''application/ld+json'')"

text \<open>The body of the outer \<open>try\<close> of \<open>parse_product_page\<close>.\<close>

definition parse_body :: "env \<Rightarrow> json \<Rightarrow> json \<Rightarrow> error + product" where
  "parse_body E html url =
     bind_err (bs_parse E html) (\<lambda>soup.
     bind_err (canonical_link E soup url) (\<lambda>canonical.
       (let og_title = meta_prop soup [''og:title'', ''twitter:title'', ''title''];
            og_image = meta_prop soup [''og:image'', ''twitter:image'', ''image''];
            og_price = meta_prop soup
                         [''product:price:amount'', ''og:price:amount'', ''price'', ''twitter:data1''];
            title_tag = title_text soup
        in case fst (scan_scripts E (ld_scripts soup) (JNull, JNull, JNull)) of
             (name0, price0, image0) \<Rightarrow>
               (let name1 = (if \<not> truthy name0 then py_or og_title title_tag else name0);
                    image1 = (if \<not> truthy image0 then og_image else image0);
                    price1 = (if \<not> truthy price0 then og_price else price0);
                    image2 = (case image1 of
                                JArr xs \<Rightarrow> (case xs of [] \<Rightarrow> JNull | x # rest \<Rightarrow> x)
                              | _ \<Rightarrow> image1)
                in Inr \<lparr>name = name1, price = price1, link = canonical, image_val = image2,
                         source_url = url, raw_title = title_tag\<rparr>))))"

definition parse_product_page :: "env \<Rightarrow> json \<Rightarrow> json \<Rightarrow> error + product" where
  "parse_product_page E html url =
     (case parse_body E html url of
        Inr r \<Rightarrow> Inr r
      | Inl e \<Rightarrow> Inr \<lparr>name = JNull, price = JNull, link = url, image_val = JNull,
                       source_url = url, raw_title = JNull\<rparr>)"

text \<open>The loop of \<open>fetch_products_via_scrape\<close> over the candidates; every exception of
  one round is caught and the loop goes on.\<close>

definition scraped_html :: "json \<Rightarrow> json" where
  "scraped_html scraped =
     (case scraped of
        JObj kvs \<Rightarrow> (case obj_get scraped ''html'' of Inr h \<Rightarrow> py_or h (JStr []) | Inl e \<Rightarrow> JStr [])
      | _ \<Rightarrow> py_or scraped (JStr []))"

fun scrape_loop :: "env \<Rightarrow> json list \<Rightarrow> product list \<Rightarrow> event list \<Rightarrow> product list \<times> event list" where
  "scrape_loop E [] products log = (products, log)"
| "scrape_loop E (url # urls) products log =
     (case scrape_website E url log of
        (Inl e, log1) \<Rightarrow> scrape_loop E urls products log1
      | (Inr scraped, log1) \<Rightarrow>
          (let html = scraped_html scraped in
           if \<not> truthy html then scrape_loop E urls products log1
           else (case parse_product_page E html url of
                   Inl e \<Rightarrow> scrape_loop E urls products log1
                 | Inr parsed \<Rightarrow>
                     (let parsed' = (if \<not> truthy (link parsed) then parsed\<lparr>link := url\<rparr>
                                     else parsed)
                      in scrape_loop E urls (products @ [parsed']) log1))))"

definition fetch_products_via_scrape ::
  "env \<Rightarrow> string \<Rightarrow> int \<Rightarrow> event list \<Rightarrow> product list \<times> event list" where
  "fetch_products_via_scrape E query num_results log =
     (case search_all E query [] num_results log of
        (Inl e, log1) \<Rightarrow> scrape_loop E [] [] log1
      | (Inr candidates, log1) \<Rightarrow> scrape_loop E candidates [] log1)"

section \<open>What the claims speak of\<close>

text \<open>Counting the runs of the fallback search and of the browser in a log.\<close>

fun is_ddg_post :: "event \<Rightarrow> bool" where
  "is_ddg_post (DdgPost q) = True"
| "is_ddg_post _ = False"

fun is_browser_get :: "event \<Rightarrow> bool" where
  "is_browser_get (BrowserGet u) = True"
| "is_browser_get _ = False"

definition fallback_searches :: "event list \<Rightarrow> nat" where
  "fallback_searches log = length (filter is_ddg_post log)"

definition browser_runs :: "event list \<Rightarrow> nat" where
  "browser_runs log = length (filter is_browser_get log)"

text \<open>
  The orchestrator's loop seen one candidate at a time, as the specification words it:
  a candidate whose fetch raises or yields empty HTML gives no record, any other gives
  the record of its page; \<open>outcomes\<close> lists them for the candidates in order, each in
  the world the earlier ones left.
\<close>

definition candidate_outcome :: "env \<Rightarrow> json \<Rightarrow> event list \<Rightarrow> product option \<times> event list" where
  "candidate_outcome E url log =
     (case scrape_website E url log of
        (Inl e, log1) \<Rightarrow> (None, log1)
      | (Inr scraped, log1) \<Rightarrow>
          (if \<not> truthy (scraped_html scraped) then None
           else (case parse_product_page E (scraped_html scraped) url of
                   Inl e \<Rightarrow> None
                 | Inr parsed \<Rightarrow>
                     Some (if \<not> truthy (link parsed) then parsed\<lparr>link := url\<rparr> else parsed)),
           log1))"

fun outcomes :: "env \<Rightarrow> json list \<Rightarrow> event list \<Rightarrow> product option list" where
  "outcomes E [] log = []"
| "outcomes E (url # urls) log =
     (case candidate_outcome E url log of (r, log1) \<Rightarrow> r # outcomes E urls log1)"

text \<open>
  Two properties of a JSON-LD item. A quiet item is one the scan passes over without a
  name and without an exception: scanned from the initial state, it ends with \<open>Next\<close>
  (it is not a Product, or it is a Product that yields no name and whose offers raise
  nothing). A Product with offers is an item of Product type whose \<open>offers\<close> is truthy.
\<close>

definition quiet_item :: "(json \<Rightarrow> string) \<Rightarrow> json \<Rightarrow> bool" where
  "quiet_item rp it = (snd (scan_item rp it (JNull, JNull, JNull)) = Next)"

definition product_with_offers :: "(json \<Rightarrow> string) \<Rightarrow> json \<Rightarrow> bool" where
  "product_with_offers rp it =
     (case item_type it of
        Inl e \<Rightarrow> False
      | Inr t \<Rightarrow>
          truthy t \<and> lower (py_str rp t) = ''product'' \<and>
          (case obj_get it ''offers'' of Inl e \<Rightarrow> False | Inr offers \<Rightarrow> truthy offers))"

section \<open>Concrete inputs\<close>

text \<open>An environment with no API key and no \<open>validators\<close> package, in which every
  request fails, every page parses to an empty document and no text is JSON. The examples
  below change it field by field.\<close>

definition env0 :: env where
  "env0 = \<lparr>firecrawl_api_key = None,
            py_repr = (\<lambda>v. ''<repr>''),
            validators_url = None,
            scrape_api_post = (\<lambda>log url. Inl (ExternalError ''ConnectionError'')),
            browser_page_source = (\<lambda>log url. Inl (ExternalError ''WebDriverException'')),
            search_api_post = (\<lambda>log q n. Inl (ExternalError ''ConnectionError'')),
            ddg_post = (\<lambda>log q. Inl (ExternalError ''ConnectionError'')),
            bs_parse = (\<lambda>markup. Inr []),
            json_loads = (\<lambda>s. None),
            urljoin = (\<lambda>base href. Inr href)\<rparr>"

text \<open>A stand-in for the HTML parser that knows the pages of an example.\<close>

definition parse_table :: "(string \<times> tag list) list \<Rightarrow> json \<Rightarrow> error + tag list" where
  "parse_table tbl markup =
     (case markup of
        JStr s \<Rightarrow> (case map_of tbl s of Some soup \<Rightarrow> Inr soup | None \<Rightarrow> Inr [])
      | _ \<Rightarrow> Inl TypeError)"

text \<open>A search API answer that lists the same page twice.\<close>

definition dup_response :: json where
  "dup_response = JObj [(''results'',
     JArr [JObj [(''url'', JStr ''https://shop.example/p/1'')],
           JObj [(''url'', JStr ''https://shop.example/p/1'')]])]"

definition env_dup :: env where
  "env_dup = env0\<lparr>firecrawl_api_key := Some ''fc-key'',
     search_api_post := (\<lambda>log q n.
        Inr \<lparr>status_code = 200, json_body = Some dup_response, text_body = []\<rparr>)\<rparr>"

text \<open>A shop: the search API has no key, the fallback search finds six pages, the
  browser times out on the second and gets an empty page for the fifth.\<close>

definition anchor :: "string \<Rightarrow> tag" where
  "anchor href = \<lparr>tag_name = ''a'', attrs = [(''href'', href)], tag_string = None\<rparr>"

definition title_tag :: "string \<Rightarrow> tag" where
  "title_tag s = \<lparr>tag_name = ''title'', attrs = [], tag_string = Some s\<rparr>"

definition shop_results_page :: string where
  "shop_results_page = ''<a href=/about>About</a><a href=https://s.example/1>1</a><a href=https://s.example/2>2</a><a href=https://s.example/3>3</a><a href=https://s.example/4>4</a><a href=https://s.example/5>5</a><a href=https://s.example/6>6</a>''"

definition shop_soups :: "(string \<times> tag list) list" where
  "shop_soups =
     [(shop_results_page,
       [anchor ''/about'', anchor ''https://s.example/1'', anchor ''https://s.example/2'',
        anchor ''https://s.example/3'', anchor ''https://s.example/4'',
        anchor ''https://s.example/5'', anchor ''https://s.example/6'']),
      (''<title>P1</title>'', [title_tag ''P1'']),
      (''<title>P3</title>'', [title_tag ''P3'']),
      (''<title>P4</title>'', [title_tag ''P4'']),
      (''<title>P6</title>'', [title_tag ''P6''])]"

definition shop_browser :: "event list \<Rightarrow> string \<Rightarrow> error + string" where
  "shop_browser log url =
     (if url = ''https://s.example/1'' then Inr ''<title>P1</title>''
      else if url = ''https://s.example/2'' then Inl (ExternalError ''TimeoutException'')
      else if url = ''https://s.example/3'' then Inr ''<title>P3</title>''
      else if url = ''https://s.example/4'' then Inr ''<title>P4</title>''
      else if url = ''https://s.example/5'' then Inr []
      else if url = ''https://s.example/6'' then Inr ''<title>P6</title>''
      else Inl (ExternalError ''WebDriverException''))"

definition env_shop :: env where
  "env_shop = env0\<lparr>
     ddg_post := (\<lambda>log q. Inr \<lparr>status_code = 200, json_body = None, text_body = shop_results_page\<rparr>),
     browser_page_source := shop_browser,
     bs_parse := parse_table shop_soups\<rparr>"

definition shop_candidates :: "json list" where
  "shop_candidates = map JStr [''https://s.example/1'', ''https://s.example/2'',
     ''https://s.example/3'', ''https://s.example/4'', ''https://s.example/5'',
     ''https://s.example/6'']"

definition shop_product :: "string \<Rightarrow> string \<Rightarrow> product" where
  "shop_product url title = \<lparr>name = JStr title, price = JNull, link = JStr url,
     image_val = JNull, source_url = JStr url, raw_title = JStr title\<rparr>"

text \<open>A content API that answers with HTML, and a browser that returns an empty page.\<close>

definition env_api :: env where
  "env_api = env0\<lparr>firecrawl_api_key := Some ''fc-key'',
     scrape_api_post := (\<lambda>log url.
        Inr \<lparr>status_code = 200,
             json_body = Some (JObj [(''html'', JStr ''<title>P1</title>'')]),
             text_body = []\<rparr>)\<rparr>"

definition env_blank :: env where
  "env_blank = env0\<lparr>browser_page_source := (\<lambda>log url. Inr [])\<rparr>"

text \<open>
  Product pages. \<open>ld_html\<close> is the markup of a JSON-LD script block and \<open>ld_script\<close>
  the tag the parser makes of it; the JSON texts stand beside the values \<open>json.loads\<close>
  gives for them. \<open>env_pages\<close> parses these pages, \<open>env_reject\<close> has a parser that
  rejects every markup, and in \<open>env_unjoinable\<close> the resolution of a link raises.
\<close>

definition ld_script :: "string \<Rightarrow> tag" where
  "ld_script body = \<lparr>tag_name = ''script'', attrs = [(''type'', ''application/ld+json'')],
     tag_string = Some body\<rparr>"

definition ld_html :: "string \<Rightarrow> string" where
  "ld_html body = ''<script type=\"application/ld+json\">'' @ body @ ''</script>''"

definition widget_json :: string where
  "widget_json = ''{\"@type\": \"Product\", \"name\": \"Widget\", \"offers\": {\"price\": \"19.99\", \"priceCurrency\": \"USD\"}, \"image\": \"https://shop.example/widget.png\"}''"

definition widget_value :: json where
  "widget_value = JObj [(''@type'', JStr ''Product''), (''name'', JStr ''Widget''),
     (''offers'', JObj [(''price'', JStr ''19.99''), (''priceCurrency'', JStr ''USD'')]),
     (''image'', JStr ''https://shop.example/widget.png'')]"

definition other_json :: string where
  "other_json = ''{\"@type\": \"Product\", \"name\": \"Other\", \"offers\": {\"price\": \"5.00\", \"priceCurrency\": \"EUR\"}, \"image\": \"https://shop.example/other.png\"}''"

definition other_value :: json where
  "other_value = JObj [(''@type'', JStr ''Product''), (''name'', JStr ''Other''),
     (''offers'', JObj [(''price'', JStr ''5.00''), (''priceCurrency'', JStr ''EUR'')]),
     (''image'', JStr ''https://shop.example/other.png'')]"

definition plain_json :: string where
  "plain_json = ''{\"@type\": \"Product\", \"name\": \"Other\"}''"

definition plain_value :: json where
  "plain_value = JObj [(''@type'', JStr ''Product''), (''name'', JStr ''Other'')]"

definition broken_json :: string where
  "broken_json = ''{\"@type\": \"Product\", ''"

definition gadget_page :: string where
  "gadget_page = ''<meta property=\"og:title\" content=\"Gadget\"><link rel=\"canonical\" href=\"/p/123\">''"

definition org_json :: string where
  "org_json = ''{\"@type\": \"Organization\", \"name\": \"Shop\"}''"

definition org_value :: json where
  "org_value = JObj [(''@type'', JStr ''Organization''), (''name'', JStr ''Shop'')]"

definition listing_json :: string where
  "listing_json = ''[{\"@type\": \"WebSite\", \"url\": \"https://shop.example/\"}, '' @ widget_json @ '']''"

definition listing_value :: json where
  "listing_value = JArr [JObj [(''@type'', JStr ''WebSite''), (''url'', JStr ''https://shop.example/'')],
     widget_value]"

definition number_json :: string where
  "number_json = ''42''"

definition two_canonical_page :: string where
  "two_canonical_page = ''<link rel=\"canonical\"><link rel=\"canonical\" href=\"/p/123\">''"

definition page_soups :: "(string \<times> tag list) list" where
  "page_soups =
     [(ld_html widget_json, [ld_script widget_json]),
      (ld_html other_json @ ld_html widget_json, [ld_script other_json, ld_script widget_json]),
      (ld_html plain_json @ ld_html widget_json, [ld_script plain_json, ld_script widget_json]),
      (ld_html broken_json, [ld_script broken_json]),
      (gadget_page,
       [\<lparr>tag_name = ''meta'', attrs = [(''property'', ''og:title''), (''content'', ''Gadget'')],
          tag_string = None\<rparr>,
        \<lparr>tag_name = ''link'', attrs = [(''rel'', ''canonical''), (''href'', ''/p/123'')],
          tag_string = None\<rparr>]),
      (ld_html org_json @ ld_html listing_json @ ld_html plain_json,
       [ld_script org_json, ld_script listing_json, ld_script plain_json]),
      (ld_html number_json @ ld_html widget_json, [ld_script number_json, ld_script widget_json]),
      (two_canonical_page,
       [\<lparr>tag_name = ''link'', attrs = [(''rel'', ''canonical'')], tag_string = None\<rparr>,
        \<lparr>tag_name = ''link'', attrs = [(''rel'', ''canonical''), (''href'', ''/p/123'')],
          tag_string = None\<rparr>])]"

definition page_urljoin :: "json \<Rightarrow> string \<Rightarrow> error + string" where
  "page_urljoin base href =
     (if base = JStr ''https://shop.example/page'' \<and> startswith href ''/''
      then Inr (''https://shop.example'' @ href) else Inr href)"

definition env_pages :: env where
  "env_pages = env0\<lparr>
     bs_parse := parse_table page_soups,
     json_loads := map_of [(widget_json, widget_value), (other_json, other_value),
                           (plain_json, plain_value), (org_json, org_value),
                           (listing_json, listing_value), (number_json, JInt 42)],
     urljoin := page_urljoin\<rparr>"

definition env_reject :: env where
  "env_reject = env0\<lparr>bs_parse := (\<lambda>markup. Inl (ExternalError ''ParserRejectedMarkup''))\<rparr>"

definition env_unjoinable :: env where
  "env_unjoinable = env_pages\<lparr>urljoin := (\<lambda>base href. Inl (ExternalError ''ValueError''))\<rparr>"

definition page_url :: json where
  "page_url = JStr ''https://shop.example/page''"

section \<open>Properties of the URL normalizer\<close>



lemma last_dropWhile: "dropWhile P xs \<noteq> [] \<Longrightarrow> last (dropWhile P xs) = last xs"
  by (induction xs) (auto split: if_splits)

lemma strip_last: "strip s \<noteq> [] \<Longrightarrow> \<not> is_space (last (strip s))"
  by (simp add: strip_def last_rev hd_dropWhile)

lemma strip_hd: 
  assumes "strip s \<noteq> []" shows "\<not> is_space (hd (strip s))"
proof -
  let ?d = "dropWhile is_space s"
  let ?r = "dropWhile is_space (rev ?d)"
  from assms have r: "?r \<noteq> []" by (simp add: strip_def)
  then have d: "?d \<noteq> []" by (cases "?d") auto
  have "hd (strip s) = last ?r" using r by (simp add: strip_def hd_rev)
  also have "\<dots> = last (rev ?d)" using r by (rule last_dropWhile)
  also have "\<dots> = hd ?d" using d by (simp add: last_rev)
  finally show ?thesis using hd_dropWhile [OF d] by simp
qed

lemma strip_fixed:
  assumes "s \<noteq> []" "\<not> is_space (hd s)" "\<not> is_space (last s)"
  shows "strip s = s"
proof -
  from assms have "dropWhile is_space s = s" by (cases s) auto
  moreover from assms have "dropWhile is_space (rev s) = rev s"
    by (cases "rev s") (auto simp: hd_rev [symmetric] last_rev)
  ultimately show ?thesis by (simp add: strip_def)
qed

lemma strip_idem: "strip (strip s) = strip s"
proof (cases "strip s = []")
  case True
  moreover have "strip [] = []" by (simp add: strip_def)
  ultimately show ?thesis by simp
next
  case False then show ?thesis by (intro strip_fixed strip_hd strip_last)
qed

lemma is_space_h: "\<not> is_space CHR ''h''"
  by (simp add: is_space_def)

lemma strip_https: 
  assumes "u \<noteq> []" "\<not> is_space (last u)"
  shows "strip (''https://'' @ u) = ''https://'' @ u"
  using assms by (intro strip_fixed) (simp_all add: is_space_h)

lemma normalize_url_str:
  "normalize_url rp (JStr s) =
     (if strip s = [] then None
      else if startswith (strip s) ''http://'' \<or> startswith (strip s) ''https://''
        then Some (strip s) else Some (''https://'' @ strip s))"
  by (auto simp: normalize_url_def py_str_def Let_def strip_def)

lemma startswith_nonempty_hd: "startswith u (c # p) \<Longrightarrow> u \<noteq> [] \<and> hd u = c"
  by (cases u) (auto simp: startswith_def)

lemma normalize_url_fixed:
  assumes "normalize_url rp v = Some u"
  shows "normalize_url rp (JStr u) = Some u"
proof -
  let ?t = "strip (py_str rp v)"
  from assms have t: "?t \<noteq> []"
    by (auto simp: normalize_url_def Let_def split: if_splits)
  show ?thesis
  proof (cases "startswith ?t ''http://'' \<or> startswith ?t ''https://''")
    case True
    with assms t have u: "u = ?t" by (auto simp: normalize_url_def Let_def split: if_splits)
    then have "strip u = u" by (simp add: strip_idem)
    with True t u show ?thesis by (simp add: normalize_url_str)
  next
    case False
    with assms t have u: "u = ''https://'' @ ?t"
      by (auto simp: normalize_url_def Let_def split: if_splits)
    have "strip u = u" unfolding u using t strip_last [OF t] by (rule strip_https)
    moreover have "startswith u ''https://''" by (simp add: u startswith_def)
    ultimately show ?thesis by (simp add: normalize_url_str u)
  qed
qed




text \<open>
  C10. \<open>normalize_url\<close> is idempotent on its successes: a URL it returns is returned
  unchanged when normalized again.
\<close>

theorem normalize_url_idempotent:
  "normalize_url rp (JStr s) = Some u \<Longrightarrow> normalize_url rp (JStr u) = Some u"
  by (rule normalize_url_fixed)

theorem normalize_url_idempotent_witness:
  "normalize_url (py_repr env0) (JStr '' example.com/x '') = Some ''https://example.com/x'' \<and>
   normalize_url (py_repr env0) (JStr ''https://example.com/x'') = Some ''https://example.com/x''"
proof -
  have h: "normalize_url (py_repr env0) (JStr '' example.com/x '') = Some ''https://example.com/x''"
    by (simp add: normalize_url_str strip_def is_space_def startswith_def)
  show ?thesis using h normalize_url_idempotent [OF h] by simp
qed

section \<open>Properties of the search chain\<close>

lemma firecrawl_search_log:
  "snd (firecrawl_search E query site n log) = log \<or>
   snd (firecrawl_search E query site n log) = log @ [SearchApiPost (site_query site query) n]"
  by (simp add: firecrawl_search_def Let_def)

lemma ddg_search_log: "snd (ddg_search E q n log) = log @ [DdgPost q]"
  by (simp add: ddg_search_def)

lemma site_query_alt:
  "(if site \<noteq> [] then ''site:'' @ site @ '' '' else []) @ query = site_query site query"
  by (simp add: site_query_def)

lemma dup_primary:
  "firecrawl_search env_dup ''shoes'' [] 5 [] =
     (Inr [JStr ''https://shop.example/p/1'', JStr ''https://shop.example/p/1''],
      [SearchApiPost ''shoes'' 5])"
  by code_simp

lemma shop_primary: "firecrawl_search env_shop ''shoes'' [] 6 [] = (Inr [], [])"
  by code_simp

lemma nothing_primary: "firecrawl_search env0 ''shoes'' ''s.example'' 6 [] = (Inr [], [])"
  by code_simp

lemma nothing_fallback:
  "ddg_search env0 ''site:s.example shoes'' 6 [] = (Inr [], [DdgPost ''site:s.example shoes''])"
  by code_simp

lemma shop_search:
  "search_all env_shop ''shoes'' [] 6 [] = (Inr shop_candidates, [DdgPost ''shoes''])"
  by code_simp

lemma shop_outcomes:
  "outcomes env_shop shop_candidates [DdgPost ''shoes''] =
     [Some (shop_product ''https://s.example/1'' ''P1''), None,
      Some (shop_product ''https://s.example/3'' ''P3''),
      Some (shop_product ''https://s.example/4'' ''P4''), None,
      Some (shop_product ''https://s.example/6'' ''P6'')]"
  by code_simp

text \<open>
  C7. When the primary search strategy returns a non-empty list, \<open>search_all\<close> returns
  that list and the log holds no new fallback request; when it returns an empty list,
  \<open>search_all\<close> is the fallback search on the site-qualified query, run exactly once,
  and an empty fallback result is returned as an empty list, not as an error.
\<close>

theorem search_all_chain:
  assumes "firecrawl_search E query site n log = (Inr fc, log1)"
  shows "(fc \<noteq> [] \<longrightarrow>
            search_all E query site n log = (Inr fc, log1) \<and>
            fallback_searches (snd (search_all E query site n log)) = fallback_searches log) \<and>
         (fc = [] \<longrightarrow>
            search_all E query site n log = ddg_search E (site_query site query) n log1 \<and>
            fallback_searches (snd (search_all E query site n log)) = fallback_searches log + 1 \<and>
            (\<forall>log2. ddg_search E (site_query site query) n log1 = (Inr [], log2) \<longrightarrow>
                    search_all E query site n log = (Inr [], log2)))"
proof -
  from firecrawl_search_log [of E query site n log] assms
  have l1: "log1 = log \<or> log1 = log @ [SearchApiPost (site_query site query) n]" by simp
  then have f1: "fallback_searches log1 = fallback_searches log"
    by (auto simp: fallback_searches_def)
  have a: "search_all E query site n log = (Inr fc, log1)" if "fc \<noteq> []"
    using assms that by (simp add: search_all_def)
  have b: "search_all E query site n log = ddg_search E (site_query site query) n log1" if "fc = []"
    using assms that by (simp add: search_all_def site_query_alt)
  have c: "fallback_searches (snd (ddg_search E (site_query site query) n log1)) = fallback_searches log + 1"
    using f1 by (simp add: ddg_search_log fallback_searches_def)
  show ?thesis using a b c f1 by auto
qed

theorem search_all_chain_witness:
  "search_all env_dup ''shoes'' [] 5 [] =
     (Inr [JStr ''https://shop.example/p/1'', JStr ''https://shop.example/p/1''],
      [SearchApiPost ''shoes'' 5]) \<and>
   fallback_searches (snd (search_all env_dup ''shoes'' [] 5 [])) = 0 \<and>
   search_all env_shop ''shoes'' [] 6 [] = (Inr shop_candidates, [DdgPost ''shoes'']) \<and>
   fallback_searches (snd (search_all env_shop ''shoes'' [] 6 [])) = 1 \<and>
   search_all env0 ''shoes'' ''s.example'' 6 [] = (Inr [], [DdgPost ''site:s.example shoes''])"
proof -
  have d: "ddg_search env_shop ''shoes'' 6 [] = (Inr shop_candidates, [DdgPost ''shoes''])"
    by code_simp
  show ?thesis
    using search_all_chain [OF dup_primary] search_all_chain [OF shop_primary]
      search_all_chain [OF nothing_primary] d nothing_fallback
    by (simp add: fallback_searches_def site_query_def)
qed

text \<open>
  C2. The claim asks for a result of at most \<open>n\<close> URLs without duplicates. On the
  key-probing path of the primary strategy the list is cut to \<open>n\<close> but never
  deduplicated: an API answer that lists one page twice comes back with both copies.
\<close>

theorem search_all_returns_duplicates:
  "search_all env_dup ''shoes'' [] 5 [] =
     (Inr [JStr ''https://shop.example/p/1'', JStr ''https://shop.example/p/1''],
      [SearchApiPost ''shoes'' 5]) \<and>
   \<not> distinct [JStr ''https://shop.example/p/1'', JStr ''https://shop.example/p/1'']"
  by (simp add: search_all_def dup_primary)

section \<open>Properties of the content-fetch chain\<close>

text \<open>
  C3, as amended. For a normalized URL that passes the optional syntax check:
  when the API strategy gives truthy HTML, \<open>scrape_website\<close> returns it and the browser
  is not started; otherwise the browser strategy runs exactly once and
  \<open>scrape_website\<close> returns its page source as it is, or raises the exception the
  browser raised, unchanged.
\<close>

theorem scrape_website_chain:
  assumes "normalize_url (py_repr E) (JStr u) = Some u"
    and "validators_url E = None \<or> (\<exists>v. validators_url E = Some v \<and> v u)"
    and "scrape_with_firecrawl E u log = (h, log1)"
  shows "(truthy h \<longrightarrow>
            scrape_website E (JStr u) log = (Inr h, log1) \<and>
            browser_runs (snd (scrape_website E (JStr u) log)) = browser_runs log) \<and>
         (\<not> truthy h \<longrightarrow>
            scrape_website E (JStr u) log =
              (case browser_page_source E log1 u of Inl e \<Rightarrow> Inl e | Inr src \<Rightarrow> Inr (JStr src),
               log1 @ [BrowserGet u]) \<and>
            browser_runs (snd (scrape_website E (JStr u) log)) = browser_runs log + 1)"
proof -
  from assms(1) have u: "u \<noteq> []"
    by (auto simp: normalize_url_def Let_def split: if_splits)
  from assms(3) have "log1 = log \<or> log1 = log @ [ScrapeApiPost u]"
    by (auto simp: scrape_with_firecrawl_def split: if_splits)
  then have b: "browser_runs log1 = browser_runs log" by (auto simp: browser_runs_def)
  have v: "\<not> (case validators_url E of None \<Rightarrow> False | Some v \<Rightarrow> \<not> v u)"
    using assms(2) by auto
  show ?thesis using assms(1,3) u b v
    by (simp add: scrape_website_def scrape_with_selenium_def browser_runs_def)
qed

theorem scrape_website_chain_witness:
  "scrape_website env_api (JStr ''https://s.example/1'') [] =
     (Inr (JStr ''<title>P1</title>''), [ScrapeApiPost ''https://s.example/1'']) \<and>
   browser_runs (snd (scrape_website env_api (JStr ''https://s.example/1'') [])) = 0 \<and>
   scrape_website env_shop (JStr ''https://s.example/1'') [] =
     (Inr (JStr ''<title>P1</title>''), [BrowserGet ''https://s.example/1'']) \<and>
   browser_runs (snd (scrape_website env_shop (JStr ''https://s.example/1'') [])) = 1"
proof -
  have n1: "normalize_url (py_repr env_api) (JStr ''https://s.example/1'') = Some ''https://s.example/1''"
    by code_simp
  have n2: "normalize_url (py_repr env_shop) (JStr ''https://s.example/1'') = Some ''https://s.example/1''"
    by code_simp
  have v1: "validators_url env_api = None \<or> (\<exists>v. validators_url env_api = Some v \<and> v ''https://s.example/1'')"
    by (simp add: env_api_def env0_def)
  have v2: "validators_url env_shop = None \<or> (\<exists>v. validators_url env_shop = Some v \<and> v ''https://s.example/1'')"
    by (simp add: env_shop_def env0_def)
  have f1: "scrape_with_firecrawl env_api ''https://s.example/1'' [] =
              (JStr ''<title>P1</title>'', [ScrapeApiPost ''https://s.example/1''])"
    by code_simp
  have f2: "scrape_with_firecrawl env_shop ''https://s.example/1'' [] = (JNull, [])"
    by code_simp
  have b: "browser_page_source env_shop [] ''https://s.example/1'' = Inr ''<title>P1</title>''"
    by code_simp
  show ?thesis
    using scrape_website_chain [OF n1 v1 f1] scrape_website_chain [OF n2 v2 f2]
    by (simp add: b browser_runs_def)
qed

text \<open>
  C3 as stated fails: when both strategies fail to produce HTML, the chain returns the
  empty page of the browser, and it lets a browser exception through as it is; there is
  no fetch-failure exception in the code.
\<close>

theorem scrape_website_fetch_failure_counterexample:
  "scrape_website env_blank (JStr ''https://example.com/x'') [] =
     (Inr (JStr []), [BrowserGet ''https://example.com/x'']) \<and>
   scrape_website env0 (JStr ''https://example.com/x'') [] =
     (Inl (ExternalError ''WebDriverException''), [BrowserGet ''https://example.com/x''])"
  by (simp add: scrape_website_def normalize_url_def py_str_def strip_def is_space_def
      startswith_def env_blank_def env0_def scrape_with_firecrawl_def key_present_def
      scrape_with_selenium_def Let_def)

section \<open>Properties of the orchestrator\<close>

lemma scrape_loop_outcomes:
  "fst (scrape_loop E urls products log) = products @ List.map_filter id (outcomes E urls log)"
proof (induction urls arbitrary: products log)
  case Nil
  then show ?case by simp
next
  case (Cons url urls)
  obtain res log1 where sw: "scrape_website E url log = (res, log1)"
    by (cases "scrape_website E url log")
  show ?case
  proof (cases res)
    case (Inl e)
    with sw Cons.IH show ?thesis
      by (simp add: candidate_outcome_def)
  next
    case (Inr scraped)
    with sw Cons.IH show ?thesis
      by (cases "parse_product_page E (scraped_html scraped) url")
         (simp_all add: candidate_outcome_def Let_def)
  qed
qed

lemma length_outcomes: "length (outcomes E urls log) = length urls"
  by (induction urls arbitrary: log) (auto split: prod.splits)

lemma length_map_filter_id:
  "length (List.map_filter id os) + length (filter (\<lambda>r. r = None) os) = length os"
  by (induction os) (auto simp: split: option.splits)

lemma parse_product_page_total: "\<exists>r. parse_product_page E html url = Inr r"
  by (cases "parse_body E html url") (simp_all add: parse_product_page_def)

lemma candidate_outcome_None:
  "fst (candidate_outcome E url log) = None \<longleftrightarrow>
     (case fst (scrape_website E url log) of
        Inl e \<Rightarrow> True
      | Inr scraped \<Rightarrow> \<not> truthy (scraped_html scraped))"
proof -
  obtain res log1 where sw: "scrape_website E url log = (res, log1)"
    by (cases "scrape_website E url log")
  show ?thesis
  proof (cases res)
    case (Inl e)
    with sw show ?thesis by (simp add: candidate_outcome_def)
  next
    case (Inr scraped)
    obtain r where "parse_product_page E (scraped_html scraped) url = Inr r"
      using parse_product_page_total by blast
    with sw Inr show ?thesis by (simp add: candidate_outcome_def)
  qed
qed

text \<open>
  C5. When the search returns the candidates, the records returned by
  \<open>fetch_products_via_scrape\<close> are exactly the records of the candidates whose outcome
  is a record, in the order of the candidates: there is one outcome for each candidate,
  the records and the skipped candidates add up to the candidates, and a candidate is
  skipped exactly when its fetch raises or yields empty HTML. With six candidates of
  which two fail, four records come back, in order.
\<close>

theorem discover_skips_failed_candidates:
  assumes "search_all E query [] n log = (Inr candidates, log1)"
  shows "fst (fetch_products_via_scrape E query n log) =
           List.map_filter id (outcomes E candidates log1) \<and>
         length (outcomes E candidates log1) = length candidates \<and>
         length (fst (fetch_products_via_scrape E query n log)) +
           length (filter (\<lambda>r. r = None) (outcomes E candidates log1)) = length candidates \<and>
         (\<forall>url l. fst (candidate_outcome E url l) = None \<longleftrightarrow>
            (case fst (scrape_website E url l) of
               Inl e \<Rightarrow> True
             | Inr scraped \<Rightarrow> \<not> truthy (scraped_html scraped)))"
proof -
  have a: "fst (fetch_products_via_scrape E query n log) =
           List.map_filter id (outcomes E candidates log1)"
    using assms by (simp add: fetch_products_via_scrape_def scrape_loop_outcomes)
  show ?thesis
    unfolding a using length_map_filter_id [of "outcomes E candidates log1"]
    by (simp add: length_outcomes candidate_outcome_None)
qed

theorem discover_skips_failed_candidates_witness:
  "search_all env_shop ''shoes'' [] 6 [] = (Inr shop_candidates, [DdgPost ''shoes'']) \<and>
   length shop_candidates = 6 \<and>
   length (filter (\<lambda>r. r = None) (outcomes env_shop shop_candidates [DdgPost ''shoes''])) = 2 \<and>
   fst (fetch_products_via_scrape env_shop ''shoes'' 6 []) =
     [shop_product ''https://s.example/1'' ''P1'', shop_product ''https://s.example/3'' ''P3'',
      shop_product ''https://s.example/4'' ''P4'', shop_product ''https://s.example/6'' ''P6'']"
proof -
  have l: "length shop_candidates = 6" by (simp add: shop_candidates_def)
  show ?thesis
    using discover_skips_failed_candidates [OF shop_search] l
    by (simp add: shop_search shop_outcomes)
qed

section \<open>Properties of the extractor\<close>

lemma image_step_ok: "\<exists>i. image_step img image0 = Inr i"
  by (cases img rule: index0.cases) (simp_all add: image_step_def)

lemma parse_body_ok:
  assumes "bs_parse E html = Inr soup" and "canonical_link E soup url = Inr c"
  shows "\<exists>r. parse_body E html url = Inr r \<and> link r = c \<and> source_url r = url"
  using assms by (simp add: parse_body_def Let_def split: prod.splits)

lemma parse_body_fails:
  assumes "parse_body E html url = Inl e"
  shows "bs_parse E html = Inl e \<or>
         (\<exists>soup. bs_parse E html = Inr soup \<and> canonical_link E soup url = Inl e)"
proof (cases "bs_parse E html")
  case (Inl a)
  with assms show ?thesis by (simp add: parse_body_def)
next
  case (Inr soup)
  show ?thesis
  proof (cases "canonical_link E soup url")
    case (Inl a)
    with Inr assms show ?thesis by (simp add: parse_body_def)
  next
    case c: (Inr c)
    from parse_body_ok [OF Inr c] assms show ?thesis by auto
  qed
qed

text \<open>
  C1. \<open>parse_product_page\<close> returns a record for every markup and URL, whatever the
  parser, \<open>json.loads\<close> and \<open>urljoin\<close> do: it never raises. When the body of its outer
  \<open>try\<close> fails, the record has every field \<open>None\<close> except \<open>link\<close> and \<open>source_url\<close>,
  which are the input URL. The body fails only when the HTML parser or the resolution of
  the canonical link raises: whatever the JSON-LD blocks hold, a page that parses and
  whose canonical link resolves gets the record of the body.
\<close>

theorem parse_product_page_never_raises:
  "(\<exists>r. parse_product_page E html url = Inr r) \<and>
   (\<forall>e. parse_body E html url = Inl e \<longrightarrow>
      parse_product_page E html url =
        Inr \<lparr>name = JNull, price = JNull, link = url, image_val = JNull,
             source_url = url, raw_title = JNull\<rparr>) \<and>
   (\<forall>soup c. bs_parse E html = Inr soup \<and> canonical_link E soup url = Inr c \<longrightarrow>
      (\<exists>r. parse_body E html url = Inr r \<and> parse_product_page E html url = Inr r))"
proof -
  have a: "\<exists>r. parse_product_page E html url = Inr r"
    by (cases "parse_body E html url") (simp_all add: parse_product_page_def)
  have b: "parse_product_page E html url =
        Inr \<lparr>name = JNull, price = JNull, link = url, image_val = JNull,
             source_url = url, raw_title = JNull\<rparr>" if "parse_body E html url = Inl e" for e
    using that by (simp add: parse_product_page_def)
  have c: "\<exists>r. parse_body E html url = Inr r \<and> parse_product_page E html url = Inr r"
    if "bs_parse E html = Inr soup \<and> canonical_link E soup url = Inr c" for soup c
    using parse_body_ok [of E html soup url c] that by (auto simp: parse_product_page_def)
  show ?thesis using a b c by blast
qed

theorem parse_product_page_never_raises_witness:
  "parse_body env_reject (JStr []) page_url = Inl (ExternalError ''ParserRejectedMarkup'') \<and>
   parse_product_page env_reject (JStr []) page_url =
     Inr \<lparr>name = JNull, price = JNull, link = page_url, image_val = JNull,
          source_url = page_url, raw_title = JNull\<rparr> \<and>
   bs_parse env_pages (JStr (ld_html broken_json)) = Inr [ld_script broken_json] \<and>
   canonical_link env_pages [ld_script broken_json] page_url = Inr page_url \<and>
   (\<exists>r. parse_body env_pages (JStr (ld_html broken_json)) page_url = Inr r \<and>
        parse_product_page env_pages (JStr (ld_html broken_json)) page_url = Inr r)"
proof -
  have h1: "parse_body env_reject (JStr []) page_url = Inl (ExternalError ''ParserRejectedMarkup'')"
    by code_simp
  have h2: "bs_parse env_pages (JStr (ld_html broken_json)) = Inr [ld_script broken_json]"
    by code_simp
  have h3: "canonical_link env_pages [ld_script broken_json] page_url = Inr page_url"
    by code_simp
  show ?thesis
    using parse_product_page_never_raises [of env_reject "JStr []" page_url]
      parse_product_page_never_raises [of env_pages "JStr (ld_html broken_json)" page_url]
      h1 h2 h3
    by simp
qed

lemma canonical_hit:
  assumes "find_tag soup ''link'' (rel_has ''canonical'') = Some t"
    and "tag_get t ''href'' = Some href" and "href \<noteq> []" and "urljoin E url href = Inr u"
  shows "canonical_link E soup url = Inr (JStr u)"
  using assms by (simp add: canonical_link_def)

lemma canonical_miss:
  assumes "case find_tag soup ''link'' (rel_has ''canonical'') of
             None \<Rightarrow> True
           | Some t \<Rightarrow> tag_get t ''href'' = None \<or> tag_get t ''href'' = Some []"
  shows "canonical_link E soup url = Inr url"
  using assms by (auto simp: canonical_link_def split: option.splits)

lemma canonical_not_null:
  assumes "canonical_link E soup (JStr s) = Inr c"
  shows "c \<noteq> JNull"
proof (cases "find_tag soup ''link'' (rel_has ''canonical'')")
  case None
  with assms show ?thesis by (auto simp: canonical_link_def)
next
  case (Some t)
  show ?thesis
  proof (cases "tag_get t ''href''")
    case None
    with Some assms show ?thesis by (auto simp: canonical_link_def)
  next
    case h: (Some href)
    show ?thesis
    proof (cases "urljoin E (JStr s) href")
      case (Inl e)
      with Some h assms show ?thesis by (auto simp: canonical_link_def split: if_splits)
    next
      case (Inr u)
      with Some h assms show ?thesis by (auto simp: canonical_link_def split: if_splits)
    qed
  qed
qed

lemma canonical_unresolved:
  assumes "find_tag soup ''link'' (rel_has ''canonical'') = Some t"
    and "tag_get t ''href'' = Some href" and "href \<noteq> []" and "urljoin E url href = Inl e"
  shows "canonical_link E soup url = Inl e"
  using assms by (simp add: canonical_link_def)

text \<open>
  C9, as amended. In the record of \<open>parse_product_page\<close>, \<open>source_url\<close> is the input
  URL. When the page parses and the first \<open>link rel="canonical"\<close> tag has a non-empty
  \<open>href\<close>, \<open>link\<close> is that \<open>href\<close> resolved against the input URL if the resolution
  returns, and the input URL if it raises. \<open>link\<close> is the input URL when there is no
  such tag or the first one has no \<open>href\<close> or an empty one, and whenever the body
  fails. For a URL that is a string, neither field is \<open>None\<close>.
\<close>

theorem link_is_first_canonical_or_source:
  "\<exists>r. parse_product_page E html url = Inr r \<and> source_url r = url \<and>
     (\<forall>soup t href u. bs_parse E html = Inr soup \<and>
         find_tag soup ''link'' (rel_has ''canonical'') = Some t \<and>
         tag_get t ''href'' = Some href \<and> href \<noteq> [] \<and> urljoin E url href = Inr u \<longrightarrow>
         link r = JStr u) \<and>
     (\<forall>soup t href e. bs_parse E html = Inr soup \<and>
         find_tag soup ''link'' (rel_has ''canonical'') = Some t \<and>
         tag_get t ''href'' = Some href \<and> href \<noteq> [] \<and> urljoin E url href = Inl e \<longrightarrow>
         link r = url) \<and>
     (\<forall>soup. bs_parse E html = Inr soup \<and>
         (case find_tag soup ''link'' (rel_has ''canonical'') of
            None \<Rightarrow> True
          | Some t \<Rightarrow> tag_get t ''href'' = None \<or> tag_get t ''href'' = Some []) \<longrightarrow>
         link r = url) \<and>
     (\<forall>e. parse_body E html url = Inl e \<longrightarrow> link r = url) \<and>
     (\<forall>s. url = JStr s \<longrightarrow> link r \<noteq> JNull \<and> source_url r \<noteq> JNull)"
proof (cases "parse_body E html url")
  case (Inl e)
  let ?r = "\<lparr>name = JNull, price = JNull, link = url, image_val = JNull,
             source_url = url, raw_title = JNull\<rparr>"
  have p: "parse_product_page E html url = Inr ?r"
    using Inl by (simp add: parse_product_page_def)
  have a: "link ?r = JStr u"
    if "bs_parse E html = Inr soup \<and>
         find_tag soup ''link'' (rel_has ''canonical'') = Some t \<and>
         tag_get t ''href'' = Some href \<and> href \<noteq> [] \<and> urljoin E url href = Inr u"
    for soup t href u
  proof -
    from that have "canonical_link E soup url = Inr (JStr u)" by (simp add: canonical_hit)
    with that parse_body_fails [OF Inl] show ?thesis by auto
  qed
  show ?thesis
    apply (rule exI [of _ ?r])
    using p a by auto
next
  case (Inr r)
  have p: "parse_product_page E html url = Inr r" using Inr by (simp add: parse_product_page_def)
  obtain soup where s: "bs_parse E html = Inr soup"
    using Inr by (cases "bs_parse E html") (auto simp: parse_body_def)
  obtain c where c: "canonical_link E soup url = Inr c"
    using Inr s by (cases "canonical_link E soup url") (auto simp: parse_body_def)
  from parse_body_ok [OF s c] Inr have r: "link r = c" "source_url r = url" by auto
  have a: "link r = JStr u"
    if "bs_parse E html = Inr soup' \<and>
         find_tag soup' ''link'' (rel_has ''canonical'') = Some t \<and>
         tag_get t ''href'' = Some href \<and> href \<noteq> [] \<and> urljoin E url href = Inr u"
    for soup' t href u
  proof -
    from that s have "soup' = soup" by simp
    with that have "canonical_link E soup url = Inr (JStr u)" by (simp add: canonical_hit)
    with c r show ?thesis by simp
  qed
  have f: "link r = url"
    if "bs_parse E html = Inr soup' \<and>
         find_tag soup' ''link'' (rel_has ''canonical'') = Some t \<and>
         tag_get t ''href'' = Some href \<and> href \<noteq> [] \<and> urljoin E url href = Inl e"
    for soup' t href e
  proof -
    from that s have "soup' = soup" by simp
    with that have "canonical_link E soup url = Inl e" by (simp add: canonical_unresolved)
    with c show ?thesis by simp
  qed
  have b: "link r = url"
    if "bs_parse E html = Inr soup' \<and>
         (case find_tag soup' ''link'' (rel_has ''canonical'') of
            None \<Rightarrow> True
          | Some t \<Rightarrow> tag_get t ''href'' = None \<or> tag_get t ''href'' = Some [])"
    for soup'
  proof -
    from that s have "soup' = soup" by simp
    with that have "canonical_link E soup url = Inr url" by (simp add: canonical_miss)
    with c r show ?thesis by simp
  qed
  have n: "link r \<noteq> JNull" if "url = JStr s" for s
    using canonical_not_null [of E soup s c] c r that by simp
  show ?thesis
    apply (rule exI [of _ r])
    using p r a b f n Inr by auto
qed

theorem link_is_first_canonical_or_source_witness:
  "(\<exists>r. parse_product_page env_pages (JStr gadget_page) page_url = Inr r \<and>
        source_url r = page_url \<and> link r = JStr ''https://shop.example/p/123'') \<and>
   (\<exists>r. parse_product_page env_unjoinable (JStr gadget_page) page_url = Inr r \<and>
        source_url r = page_url \<and> link r = page_url) \<and>
   (\<exists>r. parse_product_page env_pages (JStr two_canonical_page) page_url = Inr r \<and>
        source_url r = page_url \<and> link r = page_url) \<and>
   (\<exists>r. parse_product_page env_pages (JStr (ld_html widget_json)) page_url = Inr r \<and>
        source_url r = page_url \<and> link r = page_url) \<and>
   (\<exists>r. parse_product_page env_reject (JStr []) page_url = Inr r \<and>
        source_url r = page_url \<and> link r = page_url \<and> link r \<noteq> JNull)"
proof -
  let ?meta = "\<lparr>tag_name = ''meta'', attrs = [(''property'', ''og:title''), (''content'', ''Gadget'')],
          tag_string = None\<rparr>"
  let ?link = "\<lparr>tag_name = ''link'', attrs = [(''rel'', ''canonical''), (''href'', ''/p/123'')],
          tag_string = None\<rparr>"
  let ?bare = "\<lparr>tag_name = ''link'', attrs = [(''rel'', ''canonical'')], tag_string = None\<rparr>"
  have g1: "bs_parse env_pages (JStr gadget_page) = Inr [?meta, ?link]" by code_simp
  have g2: "find_tag [?meta, ?link] ''link'' (rel_has ''canonical'') = Some ?link" by code_simp
  have g3: "tag_get ?link ''href'' = Some ''/p/123''" by code_simp
  have g4: "urljoin env_pages page_url ''/p/123'' = Inr ''https://shop.example/p/123''"
    by code_simp
  have j1: "bs_parse env_unjoinable (JStr gadget_page) = Inr [?meta, ?link]" by code_simp
  have j4: "urljoin env_unjoinable page_url ''/p/123'' = Inl (ExternalError ''ValueError'')"
    by code_simp
  have t1: "bs_parse env_pages (JStr two_canonical_page) = Inr [?bare, ?link]" by code_simp
  have t2: "find_tag [?bare, ?link] ''link'' (rel_has ''canonical'') = Some ?bare" by code_simp
  have t3: "tag_get ?bare ''href'' = None" by code_simp
  have w1: "bs_parse env_pages (JStr (ld_html widget_json)) = Inr [ld_script widget_json]"
    by code_simp
  have w2: "find_tag [ld_script widget_json] ''link'' (rel_has ''canonical'') = None"
    by code_simp
  have r1: "parse_body env_reject (JStr []) page_url = Inl (ExternalError ''ParserRejectedMarkup'')"
    by code_simp
  have u: "page_url = JStr ''https://shop.example/page''" by (simp add: page_url_def)
  from link_is_first_canonical_or_source [of env_pages "JStr gadget_page" page_url] g1 g2 g3 g4
  have a: "\<exists>r. parse_product_page env_pages (JStr gadget_page) page_url = Inr r \<and>
        source_url r = page_url \<and> link r = JStr ''https://shop.example/p/123''"
    by fastforce
  from link_is_first_canonical_or_source [of env_unjoinable "JStr gadget_page" page_url] j1 g2 g3 j4
  have j: "\<exists>r. parse_product_page env_unjoinable (JStr gadget_page) page_url = Inr r \<and>
        source_url r = page_url \<and> link r = page_url"
    by fastforce
  from link_is_first_canonical_or_source [of env_pages "JStr two_canonical_page" page_url] t1 t2 t3
  have t: "\<exists>r. parse_product_page env_pages (JStr two_canonical_page) page_url = Inr r \<and>
        source_url r = page_url \<and> link r = page_url"
    by fastforce
  from link_is_first_canonical_or_source [of env_pages "JStr (ld_html widget_json)" page_url] w1 w2
  have b: "\<exists>r. parse_product_page env_pages (JStr (ld_html widget_json)) page_url = Inr r \<and>
        source_url r = page_url \<and> link r = page_url"
    by fastforce
  from link_is_first_canonical_or_source [of env_reject "JStr []" page_url] r1 u
  have c: "\<exists>r. parse_product_page env_reject (JStr []) page_url = Inr r \<and>
        source_url r = page_url \<and> link r = page_url \<and> link r \<noteq> JNull"
    by fastforce
  show ?thesis using a j t b c by blast
qed

text \<open>
  C9 as stated fails: a canonical tag with a non-empty \<open>href\<close> that comes after a
  canonical tag without one is not used, and when the resolution of the \<open>href\<close>
  raises, the failure record is returned; in both cases \<open>link\<close> is the input URL
  although a canonical tag with a non-empty \<open>href\<close> is present.
\<close>

theorem later_canonical_tag_counterexample:
  "bs_parse env_pages (JStr two_canonical_page) =
     Inr [\<lparr>tag_name = ''link'', attrs = [(''rel'', ''canonical'')], tag_string = None\<rparr>,
          \<lparr>tag_name = ''link'', attrs = [(''rel'', ''canonical''), (''href'', ''/p/123'')],
             tag_string = None\<rparr>] \<and>
   urljoin env_pages page_url ''/p/123'' = Inr ''https://shop.example/p/123'' \<and>
   parse_product_page env_pages (JStr two_canonical_page) page_url =
     Inr \<lparr>name = JNull, price = JNull, link = JStr ''https://shop.example/page'',
          image_val = JNull, source_url = JStr ''https://shop.example/page'',
          raw_title = JNull\<rparr> \<and>
   urljoin env_unjoinable page_url ''/p/123'' = Inl (ExternalError ''ValueError'') \<and>
   parse_product_page env_unjoinable (JStr gadget_page) page_url =
     Inr \<lparr>name = JNull, price = JNull, link = JStr ''https://shop.example/page'',
          image_val = JNull, source_url = JStr ''https://shop.example/page'',
          raw_title = JNull\<rparr>"
  by code_simp

lemma lower_nonempty: "lower ty = ''product'' \<Longrightarrow> ty \<noteq> []"
  by (auto simp: lower_def)

lemma offers_price_found:
  assumes "map_of okvs ''price'' = Some (JStr p) \<or>
           (map_of okvs ''price'' = None \<and>
            map_of okvs ''priceSpecification'' = Some (JObj pkvs) \<and>
            map_of pkvs ''price'' = Some (JStr p))"
  shows "offers_price (JObj okvs) = (if p = [] \<and> map_of okvs ''price'' \<noteq> None
            then bind_err (obj_get (JObj okvs) ''priceSpecification'')
                   (\<lambda>ps. obj_get (py_or ps (JObj [])) ''price'')
            else Inr (JStr p))"
  using assms by (auto simp: offers_price_def py_or_def)

lemma offers_currency_found:
  assumes "(map_of okvs ''priceCurrency'' = Some (JStr cur) \<and> cur \<noteq> []) \<or>
           (map_of okvs ''priceCurrency'' = None \<and>
            map_of okvs ''currency'' = Some (JStr cur) \<and> cur \<noteq> []) \<or>
           (map_of okvs ''priceCurrency'' = None \<and> map_of okvs ''currency'' = None \<and> cur = [])"
  shows "\<exists>v. offers_currency (JObj okvs) = Inr v \<and>
             (if cur = [] then \<not> truthy v else v = JStr cur)"
  using assms by (auto simp: offers_currency_def py_or_def)

lemma offers_step_found:
  assumes "offers = JObj okvs \<or> offers = JArr (JObj okvs # rest)"
    and "map_of okvs ''price'' = Some (JStr p) \<or>
           (map_of okvs ''price'' = None \<and>
            map_of okvs ''priceSpecification'' = Some (JObj pkvs) \<and>
            map_of pkvs ''price'' = Some (JStr p))"
    and "p \<noteq> []"
    and "(map_of okvs ''priceCurrency'' = Some (JStr cur) \<and> cur \<noteq> []) \<or>
           (map_of okvs ''priceCurrency'' = None \<and>
            map_of okvs ''currency'' = Some (JStr cur) \<and> cur \<noteq> []) \<or>
           (map_of okvs ''priceCurrency'' = None \<and> map_of okvs ''currency'' = None \<and> cur = [])"
  shows "offers_step rp offers price0 = Inr (JStr (if cur = [] then p else p @ '' '' @ cur))"
proof -
  have sel: "(case offers of JArr os \<Rightarrow> index0 offers | _ \<Rightarrow> Inr offers) = Inr (JObj okvs)"
    using assms(1) by auto
  have pr: "offers_price (JObj okvs) = Inr (JStr p)"
    using offers_price_found [OF assms(2)] assms(3) by simp
  obtain v where v: "offers_currency (JObj okvs) = Inr v"
    and vc: "if cur = [] then \<not> truthy v else v = JStr cur"
    using offers_currency_found [OF assms(4)] by blast
  show ?thesis
    using vc assms(3) by (auto simp: offers_step_def sel pr v py_str_def Let_def)
qed

lemma offers_truthy:
  assumes "offers = JObj okvs \<or> offers = JArr (JObj okvs # rest)"
    and "map_of okvs ''price'' = Some (JStr p) \<or>
           (map_of okvs ''price'' = None \<and>
            map_of okvs ''priceSpecification'' = Some (JObj pkvs) \<and>
            map_of pkvs ''price'' = Some (JStr p))"
  shows "truthy offers"
  using assms by auto

lemma parse_body_fields:
  assumes "bs_parse E html = Inr soup" and "canonical_link E soup url = Inr c"
    and "scan_scripts E (ld_scripts soup) (JNull, JNull, JNull) = ((n0, p0, i0), err)"
  shows "\<exists>r. parse_body E html url = Inr r \<and>
     name r = (if \<not> truthy n0
               then py_or (meta_prop soup [''og:title'', ''twitter:title'', ''title''])
                      (title_text soup)
               else n0) \<and>
     price r = (if \<not> truthy p0
                then meta_prop soup [''product:price:amount'', ''og:price:amount'', ''price'',
                       ''twitter:data1'']
                else p0)"
  using assms by (simp add: parse_body_def Let_def del: meta_prop.simps)

lemma offers_step_isl: "isl (offers_step rp offers p0) = isl (offers_step rp offers p1)"
proof (cases "case offers of JArr os \<Rightarrow> index0 offers | _ \<Rightarrow> Inr offers")
  case (Inl e)
  then show ?thesis by (simp add: offers_step_def)
next
  case (Inr off)
  show ?thesis
  proof (cases "offers_price off")
    case (Inl e)
    with Inr show ?thesis by (simp add: offers_step_def)
  next
    case pv: (Inr price_val)
    show ?thesis
      by (cases "offers_currency off") (simp_all add: offers_step_def Inr pv Let_def)
  qed
qed

lemma offers_bind_isl:
  "isl (bind_err r (\<lambda>offers. if truthy offers then offers_step rp offers p0 else Inr p0)) =
   isl (bind_err r (\<lambda>offers. if truthy offers then offers_step rp offers p1 else Inr p1))"
  by (cases r) (simp_all add: offers_step_isl [of rp _ p0 p1])

lemma image_bind_ok:
  "obj_get it ''name'' = Inr n \<Longrightarrow>
   \<exists>i. bind_err (obj_get it ''image'') (\<lambda>img. image_step img i0) = Inr i"
  using image_step_ok by (cases it) auto

lemma product_item_quiet:
  assumes "snd (product_item rp it (JNull, JNull, JNull)) = Next" and "\<not> truthy n0"
  shows "\<exists>n' p' i'. product_item rp it (n0, p0, i0) = ((n', p', i'), Next) \<and> \<not> truthy n'"
proof (cases "obj_get it ''name''")
  case (Inl e)
  with assms show ?thesis by (simp add: product_item_def)
next
  case (Inr n1)
  let ?o = "\<lambda>p. bind_err (obj_get it ''offers'')
              (\<lambda>offers. if truthy offers then offers_step rp offers p else Inr p)"
  show ?thesis
  proof (cases "?o JNull")
    case (Inl e)
    with assms Inr show ?thesis by (simp add: product_item_def)
  next
    case o: (Inr pa)
    then have "\<not> isl (?o p0)" using offers_bind_isl [of "obj_get it ''offers''" rp JNull p0]
      by simp
    then obtain pb where pb: "?o p0 = Inr pb" by (cases "?o p0") auto
    obtain ia where ia: "bind_err (obj_get it ''image'') (\<lambda>img. image_step img JNull) = Inr ia"
      using image_bind_ok [OF Inr] by blast
    obtain ib where ib: "bind_err (obj_get it ''image'') (\<lambda>img. image_step img i0) = Inr ib"
      using image_bind_ok [OF Inr] by blast
    from assms(1) Inr o ia have "\<not> truthy n1"
      by (simp add: product_item_def split: if_splits)
    with assms(2) Inr pb ib show ?thesis by (simp add: product_item_def)
  qed
qed

lemma scan_item_quiet:
  assumes "quiet_item rp it" and "\<not> truthy n0"
  shows "\<exists>n' p' i'. scan_item rp it (n0, p0, i0) = ((n', p', i'), Next) \<and> \<not> truthy n'"
proof (cases "item_type it")
  case (Inl e)
  with assms show ?thesis by (simp add: quiet_item_def scan_item_def)
next
  case (Inr t)
  show ?thesis
  proof (cases "truthy t \<and> lower (py_str rp t) = ''product''")
    case True
    with assms(1) Inr have "snd (product_item rp it (JNull, JNull, JNull)) = Next"
      by (simp add: quiet_item_def scan_item_def)
    from product_item_quiet [OF this assms(2)] True Inr show ?thesis
      by (simp add: scan_item_def)
  next
    case False
    with Inr assms(2) show ?thesis by (auto simp: scan_item_def)
  qed
qed

lemma scan_items_quiet:
  assumes "\<forall>it\<in>set items. quiet_item rp it" and "\<not> truthy na"
  shows "\<exists>n' p' i'. scan_items rp (items @ more_items) (na, pa, ia) =
            scan_items rp more_items (n', p', i') \<and> \<not> truthy n'"
  using assms
proof (induction items arbitrary: na pa ia)
  case Nil
  then show ?case by auto
next
  case (Cons it items)
  from Cons.prems have q: "quiet_item rp it" by simp
  from scan_item_quiet [OF q Cons.prems(2)]
  obtain n1 p1 i1 where s: "scan_item rp it (na, pa, ia) = ((n1, p1, i1), Next)"
    and n: "\<not> truthy n1" by blast
  from Cons.IH [OF _ n] Cons.prems(1) s show ?case by simp
qed

lemma scan_scripts_quiet:
  assumes "\<forall>s\<in>set pre. \<forall>items. script_items E s = Some items \<longrightarrow>
             (\<forall>it\<in>set items. quiet_item (py_repr E) it)"
    and "\<not> truthy n0"
  shows "\<exists>n' p' i'. scan_scripts E (pre @ scripts) (n0, p0, i0) =
            scan_scripts E scripts (n', p', i') \<and> \<not> truthy n'"
  using assms
proof (induction pre arbitrary: n0 p0 i0)
  case Nil
  then show ?case by auto
next
  case (Cons s pre)
  show ?case
  proof (cases "script_items E s")
    case None
    with Cons.IH [OF _ Cons.prems(2)] Cons.prems(1) show ?thesis by simp
  next
    case (Some items)
    with Cons.prems(1) have "\<forall>it\<in>set items. quiet_item (py_repr E) it" by simp
    from scan_items_quiet [OF this Cons.prems(2), where more_items = "[]" and pa = p0 and ia = i0]
    obtain n1 p1 i1 where s: "scan_items (py_repr E) items (n0, p0, i0) = ((n1, p1, i1), None)"
      and n: "\<not> truthy n1" by auto
    from Cons.IH [OF _ n] Cons.prems(1) s Some show ?thesis by simp
  qed
qed

lemma scan_item_keeps:
  assumes "\<not> product_with_offers rp it" and "truthy n"
  shows "\<exists>i' f. scan_item rp it (n, p, i) = ((n, p, i'), f)"
proof (cases "item_type it")
  case (Inl e)
  then show ?thesis by (simp add: scan_item_def)
next
  case (Inr t)
  show ?thesis
  proof (cases "truthy t \<and> lower (py_str rp t) = ''product''")
    case False
    with Inr show ?thesis by (auto simp: scan_item_def)
  next
    case True
    show ?thesis
    proof (cases "obj_get it ''offers''")
      case (Inl e)
      with True Inr assms(2) show ?thesis by (simp add: scan_item_def product_item_def)
    next
      case o: (Inr offers)
      with assms(1) True Inr have nt: "\<not> truthy offers" by (simp add: product_with_offers_def)
      show ?thesis
        by (cases "bind_err (obj_get it ''image'') (\<lambda>img. image_step img i)")
           (use True Inr assms(2) o nt in \<open>simp_all add: scan_item_def product_item_def\<close>)
    qed
  qed
qed

lemma scan_items_keep:
  assumes "\<forall>it\<in>set items. \<not> product_with_offers rp it" and "truthy n"
  shows "\<exists>i' e. scan_items rp items (n, p, i) = ((n, p, i'), e)"
  using assms(1)
proof (induction items arbitrary: i)
  case Nil
  then show ?case by simp
next
  case (Cons it items)
  from Cons.prems have "\<not> product_with_offers rp it" by simp
  from scan_item_keeps [OF this assms(2)]
  obtain i1 f where s: "scan_item rp it (n, p, i) = ((n, p, i1), f)" by blast
  from Cons.IH [of i1] Cons.prems obtain i2 e where
    r: "scan_items rp items (n, p, i1) = ((n, p, i2), e)" by auto
  show ?case using s r by (cases f) auto
qed

lemma scan_scripts_keep:
  assumes "\<forall>s\<in>set post. \<forall>items. script_items E s = Some items \<longrightarrow>
             (\<forall>it\<in>set items. \<not> product_with_offers (py_repr E) it)"
    and "truthy n"
  shows "\<exists>i' e. scan_scripts E post (n, p, i) = ((n, p, i'), e)"
  using assms(1)
proof (induction post arbitrary: i)
  case Nil
  then show ?case by simp
next
  case (Cons s post)
  show ?case
  proof (cases "script_items E s")
    case None
    with Cons.IH [of i] Cons.prems show ?thesis by simp
  next
    case (Some items)
    with Cons.prems have "\<forall>it\<in>set items. \<not> product_with_offers (py_repr E) it" by simp
    from scan_items_keep [OF this assms(2)]
    obtain i1 e where s: "scan_items (py_repr E) items (n, p, i) = ((n, p, i1), e)" by blast
    from Cons.IH [of i1] Cons.prems obtain i2 e2 where
      r: "scan_scripts E post (n, p, i1) = ((n, p, i2), e2)" by auto
    show ?thesis using s r Some by (cases e) auto
  qed
qed

text \<open>
  C8, as amended. Take a page that parses and whose canonical link resolves, and in it a
  JSON-LD Product object (its type equal to \<open>product\<close> up to case) with a non-empty
  name, such that every item scanned before it (the items of the earlier script blocks
  and the earlier items of its own block) is quiet, and no later script block holds a
  Product with offers. Then the record has the name of that object; and when the
  \<open>offers\<close> of the object (or the first element of the \<open>offers\<close> list) has the
  non-empty price \<open>p\<close> under \<open>price\<close>, or has no \<open>price\<close> and has it under
  \<open>priceSpecification.price\<close>, the price of the record is \<open>p\<close>, followed by a space
  and the currency code when \<open>priceCurrency\<close> or \<open>currency\<close> gives one. For name
  \<open>Widget\<close>, price \<open>19.99\<close> and currency \<open>USD\<close> the record has name \<open>Widget\<close> and
  price \<open>19.99 USD\<close>, with or without meta tags.
\<close>

theorem product_block_name_and_price:
  assumes "bs_parse E html = Inr soup"
    and "canonical_link E soup url = Inr c"
    and "ld_scripts soup = pre @ script # post"
    and "\<forall>s\<in>set pre. \<forall>items. script_items E s = Some items \<longrightarrow>
           (\<forall>it\<in>set items. quiet_item (py_repr E) it)"
    and "script_items E script = Some (before @ JObj kvs # after)"
    and "\<forall>it\<in>set before. quiet_item (py_repr E) it"
    and "\<forall>s\<in>set post. \<forall>items. script_items E s = Some items \<longrightarrow>
           (\<forall>it\<in>set items. \<not> product_with_offers (py_repr E) it)"
    and "map_of kvs ''@type'' = Some (JStr ty)" and "lower ty = ''product''"
    and "map_of kvs ''name'' = Some (JStr nm)" and "nm \<noteq> []"
    and "map_of kvs ''offers'' = Some offers"
    and "offers = JObj okvs \<or> offers = JArr (JObj okvs # rest)"
    and "map_of okvs ''price'' = Some (JStr p) \<or>
           (map_of okvs ''price'' = None \<and>
            map_of okvs ''priceSpecification'' = Some (JObj pkvs) \<and>
            map_of pkvs ''price'' = Some (JStr p))"
    and "p \<noteq> []"
    and "(map_of okvs ''priceCurrency'' = Some (JStr cur) \<and> cur \<noteq> []) \<or>
           (map_of okvs ''priceCurrency'' = None \<and>
            map_of okvs ''currency'' = Some (JStr cur) \<and> cur \<noteq> []) \<or>
           (map_of okvs ''priceCurrency'' = None \<and> map_of okvs ''currency'' = None \<and> cur = [])"
  shows "\<exists>r. parse_product_page E html url = Inr r \<and> name r = JStr nm \<and>
             price r = JStr (if cur = [] then p else p @ '' '' @ cur)"
proof -
  let ?pr = "JStr (if cur = [] then p else p @ '' '' @ cur)"
  let ?rp = "py_repr E"
  have ty: "ty \<noteq> []" using assms(9) by (rule lower_nonempty)
  have it: "item_type (JObj kvs) = Inr (JStr ty)"
    using assms(8) ty by (simp add: item_type_def py_or_def Let_def)
  have ot: "truthy offers" using assms(13,14) by (rule offers_truthy)
  obtain n1 p1 i1 where pre: "scan_scripts E (pre @ script # post) (JNull, JNull, JNull) =
        scan_scripts E (script # post) (n1, p1, i1)" and n1: "\<not> truthy n1"
    using scan_scripts_quiet [OF assms(4), of JNull "script # post" JNull JNull] by auto
  obtain n2 p2 i2 where bef: "scan_items ?rp (before @ JObj kvs # after) (n1, p1, i1) =
        scan_items ?rp (JObj kvs # after) (n2, p2, i2)" and n2: "\<not> truthy n2"
    using scan_items_quiet [OF assms(6) n1] by blast
  have os: "offers_step ?rp offers p2 = Inr ?pr"
    using assms(13-16) by (rule offers_step_found)
  obtain i3 where i3: "bind_err (obj_get (JObj kvs) ''image'') (\<lambda>img. image_step img i2) = Inr i3"
    using image_step_ok by (auto simp del: obj_get.simps simp add: obj_get.simps(1))
  have pi: "product_item ?rp (JObj kvs) (n2, p2, i2) = ((JStr nm, ?pr, i3), Break)"
    using assms(10,11,12) n2 os ot i3 by (simp add: product_item_def)
  have si: "scan_item ?rp (JObj kvs) (n2, p2, i2) = ((JStr nm, ?pr, i3), Break)"
    using it assms(9) ty pi by (simp add: scan_item_def py_str_def)
  have blk: "scan_items ?rp (before @ JObj kvs # after) (n1, p1, i1) = ((JStr nm, ?pr, i3), None)"
    using bef si by simp
  have nt: "truthy (JStr nm)" using assms(11) by simp
  obtain i4 e where post: "scan_scripts E post (JStr nm, ?pr, i3) = ((JStr nm, ?pr, i4), e)"
    using scan_scripts_keep [OF assms(7) nt] by blast
  have ss: "scan_scripts E (ld_scripts soup) (JNull, JNull, JNull) = ((JStr nm, ?pr, i4), e)"
    using assms(3,5) pre blk post by simp
  have t: "truthy ?pr" using assms(15) by simp
  have "\<exists>r. parse_body E html url = Inr r \<and> name r = JStr nm \<and> price r = ?pr"
    using parse_body_fields [OF assms(1,2) ss] assms(11) t by simp
  then show ?thesis by (auto simp: parse_product_page_def)
qed

theorem product_block_name_and_price_witness:
  "\<exists>r. parse_product_page env_pages
          (JStr (ld_html org_json @ ld_html listing_json @ ld_html plain_json)) page_url = Inr r \<and>
       name r = JStr ''Widget'' \<and> price r = JStr ''19.99 USD''"
proof -
  let ?okvs = "[(''price'', JStr ''19.99''), (''priceCurrency'', JStr ''USD'')]"
  let ?kvs = "[(''@type'', JStr ''Product''), (''name'', JStr ''Widget''),
     (''offers'', JObj ?okvs), (''image'', JStr ''https://shop.example/widget.png'')]"
  let ?site = "JObj [(''@type'', JStr ''WebSite''), (''url'', JStr ''https://shop.example/'')]"
  let ?soup = "[ld_script org_json, ld_script listing_json, ld_script plain_json]"
  let ?rp = "py_repr env_pages"
  have h1: "bs_parse env_pages
      (JStr (ld_html org_json @ ld_html listing_json @ ld_html plain_json)) = Inr ?soup"
    by code_simp
  have h2: "canonical_link env_pages ?soup page_url = Inr page_url"
    by code_simp
  have h3: "ld_scripts ?soup = [ld_script org_json] @ ld_script listing_json # [ld_script plain_json]"
    by code_simp
  have so: "script_items env_pages (ld_script org_json) = Some [org_value]" by code_simp
  have qo: "quiet_item ?rp org_value" by code_simp
  have h4: "\<forall>s\<in>set [ld_script org_json]. \<forall>items. script_items env_pages s = Some items \<longrightarrow>
           (\<forall>it\<in>set items. quiet_item ?rp it)"
    using so qo by auto
  have h5: "script_items env_pages (ld_script listing_json) = Some ([?site] @ JObj ?kvs # [])"
    by code_simp
  have qs: "quiet_item ?rp ?site" by code_simp
  then have h6: "\<forall>it\<in>set [?site]. quiet_item ?rp it" by simp
  have sp: "script_items env_pages (ld_script plain_json) = Some [plain_value]" by code_simp
  have np: "\<not> product_with_offers ?rp plain_value" by code_simp
  have h7: "\<forall>s\<in>set [ld_script plain_json]. \<forall>items. script_items env_pages s = Some items \<longrightarrow>
           (\<forall>it\<in>set items. \<not> product_with_offers ?rp it)"
    using sp np by auto
  have h9: "lower ''Product'' = ''product''" by code_simp
  have h13: "JObj ?okvs = JObj ?okvs \<or> JObj ?okvs = JArr (JObj ?okvs # [])" by simp
  have h14: "map_of ?okvs ''price'' = Some (JStr ''19.99'') \<or>
           (map_of ?okvs ''price'' = None \<and>
            map_of ?okvs ''priceSpecification'' = Some (JObj []) \<and>
            map_of [] ''price'' = Some (JStr ''19.99''))" by simp
  have h16: "(map_of ?okvs ''priceCurrency'' = Some (JStr ''USD'') \<and> ''USD'' \<noteq> []) \<or>
           (map_of ?okvs ''priceCurrency'' = None \<and>
            map_of ?okvs ''currency'' = Some (JStr ''USD'') \<and> ''USD'' \<noteq> []) \<or>
           (map_of ?okvs ''priceCurrency'' = None \<and> map_of ?okvs ''currency'' = None \<and> ''USD'' = [])"
    by simp
  show ?thesis
    using product_block_name_and_price [OF h1 h2 h3 h4 h5 h6 h7 _ h9 _ _ _ h13 h14 _ h16]
    by simp
qed

text \<open>
  C8 as stated fails for a page that contains the Widget block after a Product block
  with a name (the record has the name of the earlier block), and for one that contains
  it after a block whose JSON is a number (the item raises, the scan ends, and the
  record has no name and no price).
\<close>

theorem earlier_block_counterexample:
  "parse_product_page env_pages (JStr (ld_html plain_json @ ld_html widget_json)) page_url =
     Inr \<lparr>name = JStr ''Other'', price = JStr ''19.99 USD'',
          link = JStr ''https://shop.example/page'',
          image_val = JStr ''https://shop.example/widget.png'',
          source_url = JStr ''https://shop.example/page'', raw_title = JNull\<rparr> \<and>
   parse_product_page env_pages (JStr (ld_html number_json @ ld_html widget_json)) page_url =
     Inr \<lparr>name = JNull, price = JNull, link = JStr ''https://shop.example/page'',
          image_val = JNull, source_url = JStr ''https://shop.example/page'',
          raw_title = JNull\<rparr>"
  by code_simp

lemma scan_scripts_skips_unparsable:
  assumes "tag_string script = None \<or> tag_string script = Some [] \<or>
           (\<exists>t. tag_string script = Some t \<and> json_loads E (strip t) = None)"
  shows "scan_scripts E (script # scripts) st = scan_scripts E scripts st"
  using assms by (auto simp: script_items_def)

text \<open>
  C4. The claim asks that no Product block after the first one that yields a name
  contributes a field. The \<open>break\<close> of the scan leaves only the loop over the items of
  one script block: the next script block is scanned all the same, and its Product
  replaces the price and the image. On a page with the block of \<open>Other\<close> (5.00 EUR)
  followed by the block of \<open>Widget\<close> (19.99 USD), the record has the name of the first
  and the price and image of the second.
\<close>

theorem scan_continues_after_named_product:
  "parse_product_page env_pages (JStr (ld_html other_json @ ld_html widget_json)) page_url =
     Inr \<lparr>name = JStr ''Other'', price = JStr ''19.99 USD'',
          link = JStr ''https://shop.example/page'',
          image_val = JStr ''https://shop.example/widget.png'',
          source_url = JStr ''https://shop.example/page'', raw_title = JNull\<rparr>"
  by code_simp


end
